theory Spec2Isabelle
  imports
    Complex_Main
    "HOL-Library.Log_Nat"
    "HOL-Library.Char_ord"
    "HOL-Library.List_Lexorder"
    "HOL-Library.Product_Lexorder"
begin

section \<open>Basketball tagger: session state, event log and play metrics\<close>

text \<open>
  A shallow embedding of \<^verbatim>\<open>BasketballTaggerVersion3.py\<close>: the session state
  (\<^verbatim>\<open>st.session_state\<close>), the functions \<^verbatim>\<open>points_from_result\<close>, \<^verbatim>\<open>add_log\<close>,
  \<^verbatim>\<open>compute_metrics\<close> and \<^verbatim>\<open>add_play\<close>, and the handler of the "Reset Game" button.
  Strings are \<open>char list\<close>, a character being a code point below 256, ordered
  lexicographically by code as Python orders \<^verbatim>\<open>str\<close>. Python's and numpy's \<^verbatim>\<open>float\<close> is IEEE binary64; a finite float is
  modelled by the rational number it denotes, and every float operation by the
  exact operation followed by rounding to nearest, ties to even, at 53 bits.
\<close>

subsection \<open>IEEE binary64 arithmetic on finite values\<close>

text \<open>
  \<open>round_half_even x\<close> is the integer nearest to \<open>x\<close>, the even one of the two when
  \<open>x\<close> lies half-way. \<open>ilog2 a b\<close> is \<open>\<lfloor>log\<^sub>2 (a / b)\<rfloor>\<close> for positive \<open>a\<close> and \<open>b\<close>.
  \<open>fdiv a b\<close> is the binary64 nearest to the exact quotient \<open>a / b\<close> of two integers
  (\<open>b \<noteq> 0\<close>): what Python's \<^verbatim>\<open>a / b\<close> returns on \<^verbatim>\<open>int\<close> operands. The exponent is
  not bounded in the model: overflow to infinity and subnormal numbers would need
  operands beyond \<open>2\<^sup>1\<^sup>0\<^sup>2\<^sup>2\<close>. Division by zero (numpy: \<^verbatim>\<open>inf\<close> or \<^verbatim>\<open>nan\<close>; Python:
  \<^verbatim>\<open>ZeroDivisionError\<close>) is not modelled by these functions; \<open>compute_metrics\<close> below
  never divides by zero, which is part of what is proved about it.
\<close>

definition round_half_even :: "rat \<Rightarrow> int" where
  "round_half_even x =
     (let f = \<lfloor>x\<rfloor>; d = x - of_int f
      in if d < 1 / 2 then f
         else if 1 / 2 < d then f + 1
         else if even f then f else f + 1)"

definition ilog2 :: "int \<Rightarrow> int \<Rightarrow> int" where
  "ilog2 a b =
     (let k = bitlen a - bitlen b
      in if (2::rat) powi k \<le> of_int a / of_int b then k else k - 1)"

definition fdiv :: "int \<Rightarrow> int \<Rightarrow> rat" where
  "fdiv a b =
     (if a = 0 then 0
      else let e = ilog2 \<bar>a\<bar> \<bar>b\<bar> - 52
           in of_int (round_half_even (of_int a / of_int b / 2 powi e)) * 2 powi e)"

text \<open>\<open>float64 x\<close> rounds a rational to the nearest binary64.\<close>

definition float64 :: "rat \<Rightarrow> rat" where
  "float64 x = (case quotient_of x of (n, d) \<Rightarrow> fdiv n d)"

text \<open>
  numpy's true division of two \<^verbatim>\<open>int64\<close> columns converts both operands to binary64
  and divides there. Python's \<^verbatim>\<open>/\<close> on two \<^verbatim>\<open>int\<close>s rounds the exact quotient once.
  The two agree on operands below \<open>2\<^sup>5\<^sup>3\<close>. Sums of \<^verbatim>\<open>int64\<close> columns are modelled in
  \<open>int\<close>: wrap-around would need more than \<open>2\<^sup>6\<^sup>1\<close> events.
\<close>

definition np_div :: "int \<Rightarrow> int \<Rightarrow> rat" where
  "np_div a b = float64 (fdiv a 1 / fdiv b 1)"

definition py_div :: "int \<Rightarrow> int \<Rightarrow> rat" where
  "py_div a b = fdiv a b"

text \<open>Float addition, and a column sum that adds from the first row on.\<close>

definition fadd :: "rat \<Rightarrow> rat \<Rightarrow> rat" where
  "fadd x y = float64 (x + y)"

definition fsum :: "rat list \<Rightarrow> rat" where
  "fsum xs = foldl fadd 0 xs"

subsection \<open>Strings\<close>

text \<open>
  A character is a code point below 256 (Latin-1); text with other code points is
  outside the model. On these, \<^verbatim>\<open>str.strip()\<close> removes the characters for which
  \<^verbatim>\<open>str.isspace()\<close> holds: codes 9 to 13, 28 to 32, 133 and 160. \<^verbatim>\<open>str.lower()\<close> adds
  32 to the codes 65 to 90 (\<^verbatim>\<open>A\<close> to \<^verbatim>\<open>Z\<close>) and 192 to 222 except 215 (the accented
  capitals; 215 is the multiplication sign) and leaves every other code as it is.
\<close>

definition isspace :: "char \<Rightarrow> bool" where
  "isspace c = ((of_char c :: nat) \<in> set [9, 10, 11, 12, 13, 28, 29, 30, 31, 32, 133, 160])"

definition strip :: "string \<Rightarrow> string" where
  "strip s = rev (dropWhile isspace (rev (dropWhile isspace s)))"

definition lower_char :: "char \<Rightarrow> char" where
  "lower_char c =
     (let n = (of_char c :: nat)
      in if (65 \<le> n \<and> n \<le> 90) \<or> (192 \<le> n \<and> n \<le> 222 \<and> n \<noteq> 215)
         then char_of (n + 32) else c)"

definition lower :: "string \<Rightarrow> string" where
  "lower s = map lower_char s"

text \<open>\<^verbatim>\<open>str(date)\<close> is the ISO form \<^verbatim>\<open>YYYY-MM-DD\<close>.\<close>

record date =
  year :: nat
  month :: nat
  day :: nat

definition digit :: "nat \<Rightarrow> char" where
  "digit n = char_of (48 + n mod 10)"

definition str_date :: "date \<Rightarrow> string" where
  "str_date d =
     [digit (year d div 1000), digit (year d div 100), digit (year d div 10), digit (year d)]
     @ ''-'' @ [digit (month d div 10), digit (month d)]
     @ ''-'' @ [digit (day d div 10), digit (day d)]"

subsection \<open>Session state and the event log\<close>

text \<open>One entry of \<^verbatim>\<open>st.session_state["log"]\<close>: the dict built by \<^verbatim>\<open>add_log\<close>.\<close>

record event =
  timestamp :: string
  opponent :: string
  game_date :: string
  quarter :: string
  play :: string
  result :: string
  points :: int

text \<open>The keys of \<^verbatim>\<open>st.session_state\<close> set up by \<^verbatim>\<open>init_state\<close>.\<close>

record session_state =
  ss_plays :: "string list"
  ss_log :: "event list"
  ss_selected_play :: "string option"
  ss_opponent :: string
  ss_game_date :: date
  ss_quarter :: string
  ss_new_play :: string

text \<open>What a handler shows to the user: \<^verbatim>\<open>st.sidebar.warning\<close> and \<^verbatim>\<open>st.success\<close>.\<close>

datatype ui_msg = SidebarWarning string | Success string

definition points_from_result :: "string \<Rightarrow> int" where
  "points_from_result r =
     (case map_of [(''Made 2'', 2), (''Made 3'', 3), (''Missed 2'', 0),
                   (''Missed 3'', 0), (''Foul'', 0)] r of
        Some v \<Rightarrow> v
      | None \<Rightarrow> 0)"

text \<open>
  \<open>add_log now p r s\<close>: \<open>now\<close> is the reading of the wall clock, already formatted by
  \<^verbatim>\<open>strftime("%Y-%m-%d %H:%M:%S")\<close>; the game context is read from the session.
\<close>

definition add_log :: "string \<Rightarrow> string \<Rightarrow> string \<Rightarrow> session_state \<Rightarrow> session_state" where
  "add_log now p r s =
     s\<lparr>ss_log := ss_log s @
         [\<lparr>timestamp = now,
           opponent = ss_opponent s,
           game_date = str_date (ss_game_date s),
           quarter = ss_quarter s,
           play = p,
           result = r,
           points = points_from_result r\<rparr>]\<rparr>"

text \<open>
  \<^verbatim>\<open>add_play\<close> reads the name from \<^verbatim>\<open>st.session_state["new_play"]\<close>. It returns the new
  session and the messages it has shown.
\<close>

definition add_play :: "session_state \<Rightarrow> session_state \<times> ui_msg list" where
  "add_play s =
     (let raw = strip (ss_new_play s)
      in if raw = [] then (s, [])
         else let existing_lower = set (map lower (ss_plays s))
              in if lower raw \<in> existing_lower
                 then (s, [SidebarWarning ''Play already exists.''])
                 else (s\<lparr>ss_plays := ss_plays s @ [raw], ss_new_play := []\<rparr>, []))"

text \<open>The body run when the "Reset Game" button is pressed.\<close>

definition reset_game :: "session_state \<Rightarrow> session_state \<times> ui_msg list" where
  "reset_game s =
     (s\<lparr>ss_log := [], ss_selected_play := None\<rparr>, [Success ''Game state cleared.''])"

subsection \<open>The metrics table\<close>

record metrics_row =
  Play :: string
  Attempts :: int
  Points :: int
  PPP :: rat
  Frequency :: rat
  Success_Rate :: rat

record metrics_table =
  columns :: "string list"
  rows :: "metrics_row list"

definition metric_columns :: "string list" where
  "metric_columns =
     [''Play'', ''Attempts'', ''Points'', ''PPP'', ''Frequency'', ''Success Rate'']"

text \<open>
  \<^verbatim>\<open>DataFrame.groupby(key)\<close>: one group per distinct key, the groups in ascending key
  order, each group holding the rows with that key in their original order.
  \<^verbatim>\<open>.size()\<close> and \<^verbatim>\<open>[col].sum()\<close> give a series indexed by the keys; \<^verbatim>\<open>.get(k, d)\<close> reads
  a series with a default.
\<close>

definition groupby :: "('r \<Rightarrow> 'k::linorder) \<Rightarrow> 'r list \<Rightarrow> ('k \<times> 'r list) list" where
  "groupby key df = map (\<lambda>k. (k, filter (\<lambda>r. key r = k) df)) (sort (remdups (map key df)))"

definition group_size :: "('k \<times> 'r list) list \<Rightarrow> ('k \<times> int) list" where
  "group_size gs = map (\<lambda>(k, g). (k, int (length g))) gs"

definition group_sum :: "('r \<Rightarrow> int) \<Rightarrow> ('k \<times> 'r list) list \<Rightarrow> ('k \<times> int) list" where
  "group_sum col gs = map (\<lambda>(k, g). (k, sum_list (map col g))) gs"

definition series_get :: "('k \<times> int) list \<Rightarrow> 'k \<Rightarrow> int \<Rightarrow> int" where
  "series_get s k d = (case map_of s k of Some v \<Rightarrow> v | None \<Rightarrow> d)"

text \<open>
  \<^verbatim>\<open>sort_values(by=["PPP", "Attempts"], ascending=[False, False])\<close>: a stable sort,
  both keys descending.
\<close>

definition sort_values :: "metrics_row list \<Rightarrow> metrics_row list" where
  "sort_values ms = sort_key (\<lambda>m. (- PPP m, - Attempts m)) ms"

definition made_mask :: "event \<Rightarrow> bool" where
  "made_mask e = (result e \<in> set [''Made 2'', ''Made 3''])"

definition att_mask :: "event \<Rightarrow> bool" where
  "att_mask e = (result e \<in> set [''Made 2'', ''Made 3'', ''Missed 2'', ''Missed 3''])"

definition success_rate :: "event list \<Rightarrow> string \<Rightarrow> rat" where
  "success_rate log_df play_name =
     (let made_counts = group_size (groupby play (filter made_mask log_df));
          shot_attempts = group_size (groupby play (filter att_mask log_df));
          made = series_get made_counts play_name 0;
          atts = series_get shot_attempts play_name 0
      in if atts \<noteq> 0 then py_div made atts else 0)"

definition compute_metrics :: "event list \<Rightarrow> metrics_table" where
  "compute_metrics log_df =
     (if log_df = [] then \<lparr>columns = metric_columns, rows = []\<rparr>
      else
        let attempts = group_size (groupby play log_df);
            points_s = group_sum points (groupby play log_df);
            metrics = map (\<lambda>((k, a), (_, p)). (k, a, p)) (zip attempts points_s);
            total_attempts = sum_list (map (\<lambda>(k, a, p). a) metrics);
            ms = map (\<lambda>(k, a, p).
                   \<lparr>Play = k, Attempts = a, Points = p,
                    PPP = np_div p a,
                    Frequency = np_div a (if total_attempts \<noteq> 0 then total_attempts else 1),
                    Success_Rate = success_rate log_df k\<rparr>) metrics
        in \<lparr>columns = metric_columns, rows = sort_values ms\<rparr>)"

subsection \<open>The objects \<open>compute_metrics\<close> creates and assigns to\<close>

text \<open>
  \<open>compute_metrics\<close> above gives the returned table as a function of the rows of
  \<^verbatim>\<open>log_df\<close>. What follows runs the same body on a store of pandas objects, to
  account for what the body reads, creates and assigns to. A \<open>world\<close> holds the
  objects, addressed by their position in \<open>heap\<close>, and the reading of the wall clock
  that \<^verbatim>\<open>datetime.now()\<close> would return. An argument or a variable of the source is an
  address. A pandas operation that returns a frame or a series allocates a new
  object (\<open>alloc\<close>); \<^verbatim>\<open>metrics[name] = values\<close> assigns into the object at the address
  \<open>metrics\<close> (\<open>set_column\<close>). A frame of metrics lists in \<open>columns\<close> the columns it has;
  the field of a column not yet assigned holds 0. Objects are allocated for the
  values the source binds to a name; the intermediate results of one expression
  are not kept.

  The body is written in four parts, in the order of the source: the frame of
  Attempts and Points (\<open>build_metrics\<close>, lines 45 to 50), the columns PPP and
  Frequency (\<open>add_ratios\<close>, lines 51 to 54), the column Success Rate
  (\<open>add_success_rate\<close>, lines 56 to 66) and the sorted frame that is returned
  (\<open>sorted_copy\<close>, line 69). \<open>compute_metrics_st\<close> fails (\<open>None\<close>) when its argument is
  not the address of a frame of events.
\<close>

datatype pd_obj =
    LogFrame "event list"
  | IntSeries "(string \<times> int) list"
  | BoolSeries "bool list"
  | MetricsFrame metrics_table

record world =
  heap :: "pd_obj list"
  clock :: string

definition alloc :: "pd_obj \<Rightarrow> pd_obj list \<Rightarrow> nat \<times> pd_obj list" where
  "alloc obj h = (length h, h @ [obj])"

definition is_log_frame :: "pd_obj list \<Rightarrow> nat \<Rightarrow> bool" where
  "is_log_frame h a = (a < length h \<and> (case h ! a of LogFrame _ \<Rightarrow> True | _ \<Rightarrow> False))"

definition log_rows :: "pd_obj list \<Rightarrow> nat \<Rightarrow> event list" where
  "log_rows h a = (if a < length h then (case h ! a of LogFrame l \<Rightarrow> l | _ \<Rightarrow> []) else [])"

definition frame_at :: "pd_obj list \<Rightarrow> nat \<Rightarrow> metrics_table" where
  "frame_at h a =
     (if a < length h then (case h ! a of MetricsFrame t \<Rightarrow> t | _ \<Rightarrow> \<lparr>columns = [], rows = []\<rparr>)
      else \<lparr>columns = [], rows = []\<rparr>)"

definition set_column ::
  "nat \<Rightarrow> string \<Rightarrow> (metrics_row \<Rightarrow> metrics_row) \<Rightarrow> pd_obj list \<Rightarrow> pd_obj list" where
  "set_column a name f h =
     h[a := MetricsFrame \<lparr>columns = columns (frame_at h a) @ [name],
                          rows = map f (rows (frame_at h a))\<rparr>]"

definition select_rows :: "bool list \<Rightarrow> 'r list \<Rightarrow> 'r list" where
  "select_rows bs df = map snd (filter fst (zip bs df))"

definition build_metrics :: "nat \<Rightarrow> pd_obj list \<Rightarrow> nat \<times> pd_obj list" where
  "build_metrics log_df h0 =
     (let attempts = group_size (groupby play (log_rows h0 log_df));
          (attempts_a, h1) = alloc (IntSeries attempts) h0;
          points_s = group_sum points (groupby play (log_rows h1 log_df));
          (points_a, h2) = alloc (IntSeries points_s) h1
      in alloc (MetricsFrame
           \<lparr>columns = [''Play'', ''Attempts'', ''Points''],
            rows = map (\<lambda>((k, a), (_, p)).
                     \<lparr>Play = k, Attempts = a, Points = p,
                      PPP = 0, Frequency = 0, Success_Rate = 0\<rparr>)
                   (zip attempts points_s)\<rparr>) h2)"

definition add_ratios :: "nat \<Rightarrow> pd_obj list \<Rightarrow> pd_obj list" where
  "add_ratios metrics h3 =
     (let h4 = set_column metrics ''PPP''
                 (\<lambda>m. m\<lparr>PPP := np_div (Points m) (Attempts m)\<rparr>) h3;
          total_attempts = sum_list (map Attempts (rows (frame_at h4 metrics)))
      in set_column metrics ''Frequency''
           (\<lambda>m. m\<lparr>Frequency :=
              np_div (Attempts m) (if total_attempts \<noteq> 0 then total_attempts else 1)\<rparr>) h4)"

definition add_success_rate :: "nat \<Rightarrow> nat \<Rightarrow> pd_obj list \<Rightarrow> pd_obj list" where
  "add_success_rate log_df metrics h5 =
     (let made_mask_s = map made_mask (log_rows h5 log_df);
          (made_mask_a, h6) = alloc (BoolSeries made_mask_s) h5;
          att_mask_s = map att_mask (log_rows h6 log_df);
          (att_mask_a, h7) = alloc (BoolSeries att_mask_s) h6;
          made_counts = group_size (groupby play (select_rows made_mask_s (log_rows h7 log_df)));
          (made_counts_a, h8) = alloc (IntSeries made_counts) h7;
          shot_attempts = group_size (groupby play (select_rows att_mask_s (log_rows h8 log_df)));
          (shot_attempts_a, h9) = alloc (IntSeries shot_attempts) h8
      in set_column metrics ''Success Rate''
           (\<lambda>m. m\<lparr>Success_Rate :=
              (let made = series_get made_counts (Play m) 0;
                   atts = series_get shot_attempts (Play m) 0
               in if atts \<noteq> 0 then py_div made atts else 0)\<rparr>) h9)"

definition sorted_copy :: "nat \<Rightarrow> pd_obj list \<Rightarrow> nat \<times> pd_obj list" where
  "sorted_copy metrics h =
     alloc (MetricsFrame \<lparr>columns = columns (frame_at h metrics),
                           rows = sort_values (rows (frame_at h metrics))\<rparr>) h"

definition compute_metrics_st :: "nat \<Rightarrow> world \<Rightarrow> (nat \<times> world) option" where
  "compute_metrics_st log_df w =
     (if \<not> is_log_frame (heap w) log_df then None
      else if log_rows (heap w) log_df = []
      then (let (res, h) = alloc (MetricsFrame \<lparr>columns = metric_columns, rows = []\<rparr>) (heap w)
            in Some (res, w\<lparr>heap := h\<rparr>))
      else (let (metrics, h3) = build_metrics log_df (heap w);
                h5 = add_ratios metrics h3;
                h10 = add_success_rate log_df metrics h5;
                (res, h) = sorted_copy metrics h10
            in Some (res, w\<lparr>heap := h\<rparr>)))"

subsection \<open>Sessions used as concrete inputs\<close>

text \<open>
  \<open>init_state today\<close> is the session that \<^verbatim>\<open>init_state()\<close> sets up on a fresh
  \<^verbatim>\<open>st.session_state\<close>. \<open>tag_all now prs s\<close> calls \<open>add_log\<close> once for every pair
  (play, result) of \<open>prs\<close>, in order. \<open>tip_off\<close> is a session whose sidebar has been
  filled in; the logs below are what \<open>add_log\<close> builds from it.
\<close>

definition init_state :: "date \<Rightarrow> session_state" where
  "init_state today =
     \<lparr>ss_plays = [], ss_log = [], ss_selected_play = None, ss_opponent = [],
      ss_game_date = today, ss_quarter = [], ss_new_play = []\<rparr>"

definition tag_all :: "string \<Rightarrow> (string \<times> string) list \<Rightarrow> session_state \<Rightarrow> session_state" where
  "tag_all now prs s = foldl (\<lambda>s (p, r). add_log now p r s) s prs"

definition tip_off :: session_state where
  "tip_off = (init_state \<lparr>year = 2024, month = 3, day = 9\<rparr>)
               \<lparr>ss_opponent := ''Lions'', ss_quarter := ''1''\<rparr>"

definition demo_log :: "event list" where
  "demo_log = ss_log (tag_all ''2024-03-09 18:05:00''
     [(''Horns'', ''Made 2''), (''Pick and Roll'', ''Made 3''), (''Horns'', ''Missed 3''),
      (''Horns'', ''Foul''), (''Iso'', ''Foul'')] tip_off)"

definition spec_example_log :: "event list" where
  "spec_example_log = ss_log (tag_all ''2024-03-09 18:05:00''
     [(''Horns'', ''Made 2''), (''Horns'', ''Made 2''), (''Horns'', ''Missed 3''),
      (''Horns'', ''Foul'')] tip_off)"

definition six_plays_log :: "event list" where
  "six_plays_log = ss_log (tag_all ''2024-03-09 18:05:00''
     [(''P1'', ''Foul''), (''P2'', ''Foul''), (''P3'', ''Foul''),
      (''P4'', ''Foul''), (''P5'', ''Foul''), (''P6'', ''Foul'')] tip_off)"

text \<open>
  \<open>play_row log_df k\<close> is the row of play \<open>k\<close> written with counts taken directly on
  the log. It is not part of the program: \<open>compute_metrics_rows\<close> below proves that
  the program's rows are these.
\<close>

definition play_row :: "event list \<Rightarrow> string \<Rightarrow> metrics_row" where
  "play_row log_df k =
     (let a = int (length (filter (\<lambda>e. play e = k) log_df));
          p = sum_list (map points (filter (\<lambda>e. play e = k) log_df));
          made = int (length (filter (\<lambda>e. play e = k) (filter made_mask log_df)));
          atts = int (length (filter (\<lambda>e. play e = k) (filter att_mask log_df)))
      in \<lparr>Play = k, Attempts = a, Points = p,
          PPP = np_div p a,
          Frequency = np_div a (int (length log_df)),
          Success_Rate = (if atts \<noteq> 0 then py_div made atts else 0)\<rparr>)"

section \<open>Grouping and the rows before sorting\<close>

lemma groupby_keys: "map fst (groupby key df) = sort (remdups (map key df))"
  by (simp add: groupby_def comp_def)

lemma map_of_groupby:
  "map_of (groupby key df) k = (if k \<in> key ` set df then Some (filter (\<lambda>r. key r = k) df) else None)"
  by (simp add: groupby_def map_of_map_restrict restrict_map_def)

lemma series_get_group_size:
  "series_get (group_size (groupby key df)) k 0 = int (length (filter (\<lambda>r. key r = k) df))"
proof -
  have "group_size (groupby key df) =
          map (\<lambda>k. (k, int (length (filter (\<lambda>r. key r = k) df)))) (sort (remdups (map key df)))"
    by (simp add: group_size_def groupby_def)
  then have "map_of (group_size (groupby key df)) k =
          (if k \<in> key ` set df then Some (int (length (filter (\<lambda>r. key r = k) df))) else None)"
    by (simp add: map_of_map_restrict restrict_map_def)
  moreover have "k \<notin> key ` set df \<Longrightarrow> filter (\<lambda>r. key r = k) df = []"
    by (auto simp: filter_empty_conv)
  ultimately show ?thesis
    by (simp add: series_get_def)
qed

lemma sum_group_lengths:
  "finite K \<Longrightarrow> key ` set df \<subseteq> K \<Longrightarrow>
     (\<Sum>k\<in>K. int (length (filter (\<lambda>r. key r = k) df))) = int (length df)"
proof (induction df)
  case Nil
  then show ?case by simp
next
  case (Cons r df)
  then have "key r \<in> K" and sub: "key ` set df \<subseteq> K" by auto
  have "(\<Sum>k\<in>K. int (length (filter (\<lambda>x. key x = k) (r # df)))) =
        (\<Sum>k\<in>K. (if key r = k then 1 else 0) + int (length (filter (\<lambda>x. key x = k) df)))"
    by (rule sum.cong) auto
  also have "\<dots> = (\<Sum>k\<in>K. (if key r = k then 1 else 0)) + (\<Sum>k\<in>K. int (length (filter (\<lambda>x. key x = k) df)))"
    by (simp add: sum.distrib)
  also have "\<dots> = 1 + int (length df)"
    using Cons.IH [OF Cons.prems(1) sub] Cons.prems(1) \<open>key r \<in> K\<close> by simp
  finally show ?case by simp
qed

lemma sum_list_group_lengths:
  "sum_list (map (\<lambda>k. int (length (filter (\<lambda>r. key r = k) df))) (sort (remdups (map key df)))) = int (length df)"
proof -
  have "distinct (sort (remdups (map key df)))" by simp
  then have "sum_list (map (\<lambda>k. int (length (filter (\<lambda>r. key r = k) df))) (sort (remdups (map key df))))
       = (\<Sum>k\<in>set (sort (remdups (map key df))). int (length (filter (\<lambda>r. key r = k) df)))"
    by (rule sum_list_distinct_conv_sum_set)
  also have "\<dots> = int (length df)"
    by (rule sum_group_lengths) auto
  finally show ?thesis .
qed

lemma success_rate_eq:
  "success_rate log_df k =
     (if int (length (filter (\<lambda>e. play e = k) (filter att_mask log_df))) \<noteq> 0
      then py_div (int (length (filter (\<lambda>e. play e = k) (filter made_mask log_df))))
                  (int (length (filter (\<lambda>e. play e = k) (filter att_mask log_df))))
      else 0)"
  unfolding success_rate_def Let_def series_get_group_size ..

lemma compute_metrics_rows:
  assumes "log_df \<noteq> []"
  shows "rows (compute_metrics log_df) =
           sort_values (map (play_row log_df) (sort (remdups (map play log_df))))"
proof -
  let ?ks = "sort (remdups (map play log_df))"
  have att: "group_size (groupby play log_df) =
          map (\<lambda>k. (k, int (length (filter (\<lambda>r. play r = k) log_df)))) ?ks"
    by (simp add: group_size_def groupby_def)
  have pts: "group_sum points (groupby play log_df) =
          map (\<lambda>k. (k, sum_list (map points (filter (\<lambda>r. play r = k) log_df)))) ?ks"
    by (simp add: group_sum_def groupby_def)
  have met: "map (\<lambda>((k, a), (_, p)). (k, a, p))
               (zip (group_size (groupby play log_df)) (group_sum points (groupby play log_df)))
          = map (\<lambda>k. (k, int (length (filter (\<lambda>r. play r = k) log_df)),
                        sum_list (map points (filter (\<lambda>r. play r = k) log_df)))) ?ks"
    unfolding att pts by (simp add: zip_map_map zip_same_conv_map comp_def)
  have tot: "sum_list (map (\<lambda>(k, a, p). a)
               (map (\<lambda>k. (k, int (length (filter (\<lambda>r. play r = k) log_df)),
                        sum_list (map points (filter (\<lambda>r. play r = k) log_df)))) ?ks))
          = int (length log_df)"
    using sum_list_group_lengths [of play log_df] by (simp add: comp_def)
  have len: "int (length log_df) \<noteq> 0" using assms by simp
  have "rows (compute_metrics log_df) =
          sort_values (map (\<lambda>(k, a, p).
                   \<lparr>Play = k, Attempts = a, Points = p,
                    PPP = np_div p a,
                    Frequency = np_div a (int (length log_df)),
                    Success_Rate = success_rate log_df k\<rparr>)
             (map (\<lambda>k. (k, int (length (filter (\<lambda>r. play r = k) log_df)),
                        sum_list (map points (filter (\<lambda>r. play r = k) log_df)))) ?ks))"
    using assms len unfolding compute_metrics_def Let_def met tot by simp
  also have "\<dots> = sort_values (map (play_row log_df) ?ks)"
    unfolding play_row_def Let_def success_rate_eq map_map comp_def prod.case ..
  finally show ?thesis .
qed

lemma filter_eq_distinct:
  "distinct xs \<Longrightarrow> filter (\<lambda>k. k = x) xs = (if x \<in> set xs then [x] else [])"
  by (induction xs) auto

lemma play_row_fields:
  "Play (play_row log_df k) = k"
  "Attempts (play_row log_df k) = int (length (filter (\<lambda>e. play e = k) log_df))"
  "Points (play_row log_df k) = sum_list (map points (filter (\<lambda>e. play e = k) log_df))"
  "PPP (play_row log_df k) =
     np_div (sum_list (map points (filter (\<lambda>e. play e = k) log_df)))
            (int (length (filter (\<lambda>e. play e = k) log_df)))"
  "Frequency (play_row log_df k) =
     np_div (int (length (filter (\<lambda>e. play e = k) log_df))) (int (length log_df))"
  "Success_Rate (play_row log_df k) =
     (if int (length (filter (\<lambda>e. play e = k) (filter att_mask log_df))) \<noteq> 0
      then py_div (int (length (filter (\<lambda>e. play e = k) (filter made_mask log_df))))
                  (int (length (filter (\<lambda>e. play e = k) (filter att_mask log_df))))
      else 0)"
  unfolding play_row_def Let_def by simp_all

lemma rows_empty: "rows (compute_metrics []) = []"
  by (simp add: compute_metrics_def)

lemma rows_of_play:
  "filter (\<lambda>m. Play m = p) (rows (compute_metrics log_df)) =
     (if p \<in> play ` set log_df then [play_row log_df p] else [])"
proof (cases "log_df = []")
  case True
  then show ?thesis by (simp add: rows_empty)
next
  case False
  let ?ks = "sort (remdups (map play log_df))"
  have "filter (\<lambda>m. Play m = p) (rows (compute_metrics log_df)) =
          sort_values (filter (\<lambda>m. Play m = p) (map (play_row log_df) ?ks))"
    by (simp add: compute_metrics_rows [OF False] sort_values_def filter_sort)
  also have "filter (\<lambda>m. Play m = p) (map (play_row log_df) ?ks) =
          map (play_row log_df) (filter (\<lambda>k. k = p) ?ks)"
    by (simp add: filter_map comp_def play_row_fields)
  also have "filter (\<lambda>k. k = p) ?ks = (if p \<in> play ` set log_df then [p] else [])"
    by (simp add: filter_eq_distinct)
  finally show ?thesis by (simp add: sort_values_def)
qed

lemma set_rows:
  "set (rows (compute_metrics log_df)) = play_row log_df ` play ` set log_df"
proof (cases "log_df = []")
  case True
  then show ?thesis by (simp add: rows_empty)
next
  case False
  then show ?thesis
    by (simp add: compute_metrics_rows sort_values_def)
qed

section \<open>What the table depends on, and column sums\<close>

lemma columns_compute_metrics: "columns (compute_metrics log_df) = metric_columns"
  by (simp add: compute_metrics_def Let_def)

lemma compute_metrics_table:
  "compute_metrics log_df =
     \<lparr>columns = metric_columns,
      rows = (if log_df = [] then []
              else sort_values (map (play_row log_df) (sort (remdups (map play log_df)))))\<rparr>"
proof -
  have "rows (compute_metrics log_df) =
          (if log_df = [] then []
           else sort_values (map (play_row log_df) (sort (remdups (map play log_df)))))"
    by (simp add: rows_empty compute_metrics_rows)
  then show ?thesis
    using columns_compute_metrics [of log_df] by (cases "compute_metrics log_df") simp
qed

lemma map_filter_cong:
  assumes "map f xs = map f ys"
  shows "map f (filter (\<lambda>x. P (f x)) xs) = map f (filter (\<lambda>x. P (f x)) ys)"
proof -
  have "map f (filter (\<lambda>x. P (f x)) xs) = filter P (map f xs)" for xs
    by (simp add: filter_map comp_def)
  then show ?thesis using assms by simp
qed

lemma play_row_cong:
  assumes "map (\<lambda>e. (play e, result e, points e)) log1 = map (\<lambda>e. (play e, result e, points e)) log2"
  shows "play_row log1 k = play_row log2 k"
proof -
  let ?f = "\<lambda>e. (play e, result e, points e)"
  have a: "map ?f (filter (\<lambda>e. play e = k) log1) = map ?f (filter (\<lambda>e. play e = k) log2)"
    using map_filter_cong [OF assms, of "\<lambda>x. fst x = k"] by simp
  have b: "map ?f (filter (\<lambda>e. play e = k) (filter made_mask log1)) =
           map ?f (filter (\<lambda>e. play e = k) (filter made_mask log2))"
    using map_filter_cong [OF assms, of "\<lambda>x. fst (snd x) \<in> set [''Made 2'', ''Made 3''] \<and> fst x = k"]
    by (simp add: made_mask_def)
  have c: "map ?f (filter (\<lambda>e. play e = k) (filter att_mask log1)) =
           map ?f (filter (\<lambda>e. play e = k) (filter att_mask log2))"
    using map_filter_cong [OF assms,
        of "\<lambda>x. fst (snd x) \<in> set [''Made 2'', ''Made 3'', ''Missed 2'', ''Missed 3''] \<and> fst x = k"]
    by (simp add: att_mask_def)
  have len: "length xs = length ys" if "map ?f xs = map ?f ys" for xs ys
    using that by (rule map_eq_imp_length_eq)
  have pts: "map points xs = map points ys" if "map ?f xs = map ?f ys" for xs ys
  proof -
    have "map (\<lambda>x. snd (snd x)) (map ?f xs) = map (\<lambda>x. snd (snd x)) (map ?f ys)"
      using that by simp
    then show ?thesis by (simp add: comp_def)
  qed
  show ?thesis
    unfolding play_row_def Let_def
    by (simp only: len [OF a] len [OF b] len [OF c] len [OF assms] pts [OF a])
qed

lemma compute_metrics_fields_only:
  assumes "map (\<lambda>e. (play e, result e, points e)) log1 = map (\<lambda>e. (play e, result e, points e)) log2"
  shows "compute_metrics log1 = compute_metrics log2"
proof -
  have "map fst (map (\<lambda>e. (play e, result e, points e)) log1) =
        map fst (map (\<lambda>e. (play e, result e, points e)) log2)"
    using assms by simp
  then have p: "map play log1 = map play log2" by (simp add: comp_def)
  have e: "(log1 = []) = (log2 = [])"
    using map_eq_imp_length_eq [OF assms] by auto
  have r: "map (play_row log1) ks = map (play_row log2) ks" for ks
    by (simp add: play_row_cong [OF assms])
  show ?thesis
    by (simp only: compute_metrics_table [of log1] compute_metrics_table [of log2] p e r)
qed

lemma sum_list_insort_key:
  fixes f :: "'a \<Rightarrow> 'b::comm_monoid_add"
  shows "sum_list (map f (insort_key g x xs)) = f x + sum_list (map f xs)"
  by (induction xs) (simp_all add: ac_simps)

lemma sum_list_sort_key:
  fixes f :: "'a \<Rightarrow> 'b::comm_monoid_add"
  shows "sum_list (map f (sort_key g xs)) = sum_list (map f xs)"
  by (induction xs) (simp_all add: sum_list_insort_key)

lemma total_attempts_rows:
  "sum_list (map Attempts (rows (compute_metrics log_df))) = int (length log_df)"
proof (cases "log_df = []")
  case True
  then show ?thesis by (simp add: rows_empty)
next
  case False
  have "sum_list (map Attempts (rows (compute_metrics log_df))) =
        sum_list (map Attempts (map (play_row log_df) (sort (remdups (map play log_df)))))"
    by (simp only: compute_metrics_rows [OF False] sort_values_def sum_list_sort_key)
  also have "\<dots> = sum_list (map (\<lambda>k. int (length (filter (\<lambda>e. play e = k) log_df)))
                      (sort (remdups (map play log_df))))"
    by (simp add: comp_def play_row_fields)
  also have "\<dots> = int (length log_df)"
    by (rule sum_list_group_lengths)
  finally show ?thesis .
qed

lemma frequency_rows:
  assumes "m \<in> set (rows (compute_metrics log_df))"
  shows "Frequency m = np_div (Attempts m) (int (length log_df))"
  using assms by (auto simp: set_rows play_row_fields)

lemma sum_list_divide:
  fixes c :: rat
  shows "sum_list (map (\<lambda>x. f x / c) xs) = sum_list (map f xs) / c"
  by (induction xs) (simp_all add: add_divide_distrib)

section \<open>Rounding error of the float operations\<close>

text \<open>
  Rounding to nearest moves a value by at most the fraction \<open>2\<^sup>-\<^sup>5\<^sup>3\<close> of its
  magnitude, and an integer of magnitude below \<open>2\<^sup>5\<^sup>3\<close> is a binary64 as it stands.
\<close>

lemma round_half_even_err: "\<bar>of_int (round_half_even x) - x\<bar> \<le> 1 / 2"
proof -
  have "of_int \<lfloor>x\<rfloor> \<le> x" "x < of_int \<lfloor>x\<rfloor> + 1" by linarith+
  then show ?thesis
    by (auto simp: round_half_even_def Let_def)
qed

lemma round_half_even_of_int: "round_half_even (of_int n) = n"
  by (simp add: round_half_even_def)

lemma bitlen_lower: "0 < a \<Longrightarrow> (2::rat) powi (bitlen a - 1) \<le> of_int a"
proof -
  assume a: "0 < a"
  then have "1 \<le> bitlen a" by (simp add: bitlen_alt_def)
  then have "(2::rat) powi (bitlen a - 1) = 2 ^ nat (bitlen a - 1)"
    by (simp add: power_int_def)
  also have "\<dots> = of_int (2 ^ nat (bitlen a - 1))" by simp
  also have "\<dots> \<le> of_int a"
    using bitlen_bounds [OF a] by (simp only: of_int_le_iff)
  finally show ?thesis .
qed

lemma bitlen_upper: "0 < a \<Longrightarrow> of_int a < (2::rat) powi (bitlen a)"
proof -
  assume a: "0 < a"
  have "(of_int a :: rat) < of_int (2 ^ nat (bitlen a))"
    using bitlen_bounds [OF a] by (simp only: of_int_less_iff)
  also have "\<dots> = 2 ^ nat (bitlen a)" by simp
  also have "\<dots> = 2 powi (bitlen a)"
    using bitlen_nonneg [of a] by (simp add: power_int_def)
  finally show ?thesis .
qed

lemma ilog2_le:
  assumes "0 < a" "0 < b"
  shows "(2::rat) powi (ilog2 a b) \<le> of_int a / of_int b"
proof (cases "(2::rat) powi (bitlen a - bitlen b) \<le> of_int a / of_int b")
  case True
  then show ?thesis by (simp add: ilog2_def)
next
  case False
  have b0: "(0::rat) < of_int b" using assms by simp
  have "(2::rat) powi (bitlen a - bitlen b - 1) = 2 powi (bitlen a - 1) / 2 powi (bitlen b)"
    by (simp add: power_int_diff)
  also have "\<dots> \<le> of_int a / 2 powi (bitlen b)"
    using bitlen_lower [OF assms(1)] by (simp add: divide_right_mono)
  also have "\<dots> \<le> of_int a / of_int b"
    using bitlen_upper [OF assms(2)] assms b0 by (simp add: frac_le)
  finally show ?thesis using False by (simp add: ilog2_def)
qed

lemma fdiv_err:
  assumes "0 < b"
  shows "\<bar>fdiv a b - of_int a / of_int b\<bar> \<le> \<bar>of_int a / of_int b\<bar> / 2 ^ 53"
proof (cases "a = 0")
  case True
  then show ?thesis by (simp add: fdiv_def)
next
  case False
  define q :: rat where "q = of_int a / of_int b"
  define s :: rat where "s = 2 powi (ilog2 \<bar>a\<bar> \<bar>b\<bar> - 52)"
  have s0: "0 < s" by (simp add: s_def)
  have f: "fdiv a b = of_int (round_half_even (q / s)) * s"
    using False by (simp add: fdiv_def q_def s_def Let_def)
  have "\<bar>fdiv a b - q\<bar> = \<bar>of_int (round_half_even (q / s)) - q / s\<bar> * s"
  proof -
    have "fdiv a b - q = (of_int (round_half_even (q / s)) - q / s) * s"
      using s0 by (simp add: f algebra_simps)
    then show ?thesis using s0 by (simp add: abs_mult)
  qed
  also have "\<dots> \<le> (1 / 2) * s"
    using round_half_even_err [of "q / s"] s0 by (simp only: mult_right_mono less_imp_le)
  also have "(1 / 2) * s = 2 powi (ilog2 \<bar>a\<bar> \<bar>b\<bar>) / 2 ^ 53"
  proof -
    have "s = 2 powi (ilog2 \<bar>a\<bar> \<bar>b\<bar>) / 2 powi 52"
      unfolding s_def by (simp add: power_int_diff)
    then show ?thesis by simp
  qed
  also have "\<dots> \<le> \<bar>q\<bar> / 2 ^ 53"
  proof -
    have "(2::rat) powi (ilog2 \<bar>a\<bar> \<bar>b\<bar>) \<le> of_int \<bar>a\<bar> / of_int \<bar>b\<bar>"
      using False assms by (intro ilog2_le) simp_all
    also have "\<dots> = \<bar>q\<bar>" by (simp add: q_def)
    finally show ?thesis by (simp add: divide_right_mono)
  qed
  finally show ?thesis by (simp add: q_def)
qed

lemma fdiv_int_exact:
  assumes "\<bar>a\<bar> < 2 ^ 53"
  shows "fdiv a 1 = of_int a"
proof (cases "a = 0")
  case True
  then show ?thesis by (simp add: fdiv_def)
next
  case False
  then have pos: "0 < \<bar>a\<bar>" by simp
  have b1: "1 \<le> bitlen \<bar>a\<bar>" using pos by (simp add: bitlen_alt_def)
  have "(2::int) ^ nat (bitlen \<bar>a\<bar> - 1) < 2 ^ 53"
    using bitlen_bounds [OF pos] assms by linarith
  then have "nat (bitlen \<bar>a\<bar> - 1) < 53"
    by (rule power_less_imp_less_exp [rotated]) simp
  then have b2: "bitlen \<bar>a\<bar> \<le> 53" by linarith
  have i: "ilog2 \<bar>a\<bar> 1 = bitlen \<bar>a\<bar> - 1"
    using bitlen_lower [OF pos] by (simp add: ilog2_def compute_bitlen)
  define n where "n = nat (53 - bitlen \<bar>a\<bar>)"
  have e: "ilog2 \<bar>a\<bar> \<bar>1\<bar> - 52 = - int n"
    using b2 by (simp add: i n_def)
  have p: "(2::rat) powi (- int n) = 1 / 2 ^ n"
    by (simp add: power_int_minus_divide)
  have "fdiv a 1 = of_int (round_half_even (of_int (a * 2 ^ n))) * (1 / 2 ^ n)"
    using False unfolding fdiv_def Let_def e p by simp
  then show ?thesis
    by (simp only: round_half_even_of_int) simp
qed

lemma float64_err: "\<bar>float64 x - x\<bar> \<le> \<bar>x\<bar> / 2 ^ 53"
proof -
  obtain n d where nd: "quotient_of x = (n, d)" by (cases "quotient_of x")
  have d: "0 < d" using nd by (rule quotient_of_denom_pos)
  have x: "x = of_int n / of_int d" using nd by (rule quotient_of_div)
  show ?thesis
    using fdiv_err [OF d, of n] by (simp add: float64_def nd x [symmetric])
qed

lemma np_div_err:
  assumes "\<bar>a\<bar> < 2 ^ 53" "\<bar>b\<bar> < 2 ^ 53"
  shows "\<bar>np_div a b - of_int a / of_int b\<bar> \<le> \<bar>of_int a / of_int b\<bar> / 2 ^ 53"
  unfolding np_div_def fdiv_int_exact [OF assms(1)] fdiv_int_exact [OF assms(2)]
  by (rule float64_err)

lemma py_div_err:
  assumes "0 < b"
  shows "\<bar>py_div a b - of_int a / of_int b\<bar> \<le> \<bar>of_int a / of_int b\<bar> / 2 ^ 53"
  unfolding py_div_def using assms by (rule fdiv_err)

section \<open>Frequencies\<close>

lemma attempts_rows_bounds:
  assumes "m \<in> set (rows (compute_metrics log_df))"
  shows "1 \<le> Attempts m" and "Attempts m \<le> int (length log_df)"
proof -
  from assms obtain e where e: "e \<in> set log_df" and m: "m = play_row log_df (play e)"
    by (auto simp: set_rows)
  from e have "filter (\<lambda>x. play x = play e) log_df \<noteq> []"
    by (auto simp: filter_empty_conv)
  then have "1 \<le> int (length (filter (\<lambda>x. play x = play e) log_df))"
    by (cases "filter (\<lambda>x. play x = play e) log_df") simp_all
  then show "1 \<le> Attempts m"
    unfolding m play_row_fields .
  show "Attempts m \<le> int (length log_df)"
    unfolding m play_row_fields by simp
qed

lemma of_int_sum_list_map:
  "rat_of_int (sum_list (map f xs)) = (\<Sum>x\<leftarrow>xs. rat_of_int (f x))"
  by (induction xs) simp_all

lemma exact_shares_sum:
  assumes "log_df \<noteq> []"
  shows "(\<Sum>m\<leftarrow>rows (compute_metrics log_df).
            rat_of_int (Attempts m) / rat_of_int (int (length log_df))) = 1"
proof -
  have "(\<Sum>m\<leftarrow>rows (compute_metrics log_df).
            rat_of_int (Attempts m) / rat_of_int (int (length log_df)))
        = (\<Sum>m\<leftarrow>rows (compute_metrics log_df). rat_of_int (Attempts m))
            / rat_of_int (int (length log_df))"
    by (rule sum_list_divide)
  also have "(\<Sum>m\<leftarrow>rows (compute_metrics log_df). rat_of_int (Attempts m))
        = rat_of_int (sum_list (map Attempts (rows (compute_metrics log_df))))"
    by (simp only: of_int_sum_list_map)
  also have "\<dots> = rat_of_int (int (length log_df))"
    by (simp only: total_attempts_rows)
  finally show ?thesis using assms by simp
qed

lemma frequency_sum_bound:
  assumes "log_df \<noteq> []" and "length log_df < 2 ^ 53"
  shows "\<bar>sum_list (map Frequency (rows (compute_metrics log_df))) - 1\<bar> \<le> 1 / 2 ^ 53"
proof -
  let ?ms = "rows (compute_metrics log_df)"
  let ?T = "int (length log_df)"
  let ?x = "\<lambda>m. rat_of_int (Attempts m) / rat_of_int ?T"
  have T: "0 < ?T" "?T < 2 ^ 53" using assms by simp_all
  have err: "\<bar>Frequency m - ?x m\<bar> \<le> ?x m / 2 ^ 53" if "m \<in> set ?ms" for m
  proof -
    have a: "0 < Attempts m" "Attempts m < 2 ^ 53"
      using attempts_rows_bounds [OF that] T by linarith+
    have "0 \<le> ?x m" using a T by simp
    then have n: "\<bar>?x m\<bar> = ?x m" by (rule abs_of_nonneg)
    have "\<bar>np_div (Attempts m) ?T - ?x m\<bar> \<le> \<bar>?x m\<bar> / 2 ^ 53"
      using a T by (intro np_div_err) simp_all
    then show ?thesis
      unfolding frequency_rows [OF that] n .
  qed
  have "sum_list (map Frequency ?ms) - 1 = sum_list (map Frequency ?ms) - sum_list (map ?x ?ms)"
    by (simp only: exact_shares_sum [OF assms(1)])
  also have "\<dots> = (\<Sum>m\<leftarrow>?ms. Frequency m - ?x m)"
    by (simp only: sum_list_subtractf)
  finally have "\<bar>sum_list (map Frequency ?ms) - 1\<bar> = \<bar>\<Sum>m\<leftarrow>?ms. Frequency m - ?x m\<bar>"
    by simp
  also have "\<dots> \<le> (\<Sum>m\<leftarrow>?ms. \<bar>Frequency m - ?x m\<bar>)"
    using sum_list_abs [of "map (\<lambda>m. Frequency m - ?x m) ?ms"] by (simp add: comp_def)
  also have "\<dots> \<le> (\<Sum>m\<leftarrow>?ms. ?x m / 2 ^ 53)"
    by (rule sum_list_mono) (rule err)
  also have "\<dots> = sum_list (map ?x ?ms) / 2 ^ 53"
    by (rule sum_list_divide)
  also have "\<dots> = 1 / 2 ^ 53"
    by (simp only: exact_shares_sum [OF assms(1)])
  finally show ?thesis .
qed

lemma six_plays_log_plays:
  "map play six_plays_log = [''P1'', ''P2'', ''P3'', ''P4'', ''P5'', ''P6'']"
  by (simp add: six_plays_log_def tag_all_def add_log_def tip_off_def init_state_def)

lemma six_plays_frequencies:
  "map Frequency (rows (compute_metrics six_plays_log)) = replicate 6 (np_div 1 6)"
proof (rule replicate_eqI)
  have ne: "six_plays_log \<noteq> []"
    using six_plays_log_plays by auto
  have len: "length six_plays_log = 6"
    using arg_cong [OF six_plays_log_plays, of length] by simp
  show "length (map Frequency (rows (compute_metrics six_plays_log))) = 6"
    by (simp add: compute_metrics_rows [OF ne] sort_values_def six_plays_log_plays)
  fix y assume "y \<in> set (map Frequency (rows (compute_metrics six_plays_log)))"
  then obtain k where k: "k \<in> set (map play six_plays_log)"
    and y: "y = Frequency (play_row six_plays_log k)"
    by (auto simp: set_rows)
  have "length (filter (\<lambda>e. play e = k) six_plays_log) = length (filter (\<lambda>p. p = k) (map play six_plays_log))"
    by (simp add: filter_map comp_def)
  also have "\<dots> = 1"
    using k unfolding six_plays_log_plays by auto
  finally show "y = np_div 1 6"
    unfolding y by (simp add: play_row_fields len)
qed

lemma np_div_1_6: "np_div 1 6 = 6004799503160661 / 36028797018963968"
  by code_simp

section \<open>Trimming and lower-casing\<close>

lemma rev_dropWhile_takeWhile:
  "rev (dropWhile P (rev xs)) @ rev (takeWhile P (rev xs)) = xs"
  by (metis rev_append rev_rev_ident takeWhile_dropWhile_id)

lemma strip_decomposition:
  "\<exists>pre suf. s = pre @ strip s @ suf \<and> list_all isspace pre \<and> list_all isspace suf"
proof -
  let ?t = "dropWhile isspace s"
  let ?pre = "takeWhile isspace s"
  let ?suf = "rev (takeWhile isspace (rev ?t))"
  have t: "?t = strip s @ ?suf"
    unfolding strip_def by (rule rev_dropWhile_takeWhile [symmetric])
  have "s = ?pre @ ?t" by simp
  with t have "s = ?pre @ strip s @ ?suf" by simp
  moreover have "list_all isspace ?pre"
    by (auto simp: list_all_iff dest: set_takeWhileD)
  moreover have "list_all isspace ?suf"
    by (auto simp: list_all_iff dest: set_takeWhileD)
  ultimately show ?thesis by blast
qed

lemma strip_ends:
  assumes "strip s \<noteq> []"
  shows "\<not> isspace (hd (strip s))" and "\<not> isspace (last (strip s))"
proof -
  let ?t = "dropWhile isspace s"
  let ?u = "dropWhile isspace (rev ?t)"
  have u: "?u \<noteq> []" using assms by (simp add: strip_def)
  have "last (strip s) = hd ?u"
    using u by (simp add: strip_def last_rev)
  then show "\<not> isspace (last (strip s))"
    using hd_dropWhile [OF u] by simp
  have t: "?t = strip s @ rev (takeWhile isspace (rev ?t))"
    unfolding strip_def by (rule rev_dropWhile_takeWhile [symmetric])
  have "?t \<noteq> []"
  proof
    assume e: "?t = []"
    have "strip s = []" unfolding strip_def e by simp
    with assms show False by simp
  qed
  then have "\<not> isspace (hd ?t)" by (rule hd_dropWhile)
  moreover have "hd ?t = hd (strip s)"
    using assms by (subst t) simp
  ultimately show "\<not> isspace (hd (strip s))" by simp
qed

lemma isspace_codes:
  "isspace c \<longleftrightarrow>
     (let n = (of_char c :: nat) in 9 \<le> n \<and> n \<le> 13 \<or> 28 \<le> n \<and> n \<le> 32 \<or> n = 133 \<or> n = 160)"
  unfolding isspace_def Let_def by (simp; presburger)

lemma lower_codes:
  "map of_char (lower q) =
     map (\<lambda>c. let n = (of_char c :: nat)
               in if 65 \<le> n \<and> n \<le> 90 \<or> 192 \<le> n \<and> n \<le> 222 \<and> n \<noteq> 215 then n + 32 else n) q"
  by (simp add: lower_def lower_char_def Let_def)

section \<open>Counting on a log by its fields\<close>

lemma demo_log_events:
  "map (\<lambda>e. (play e, result e, points e)) demo_log =
     [(''Horns'', ''Made 2'', 2), (''Pick and Roll'', ''Made 3'', 3), (''Horns'', ''Missed 3'', 0),
      (''Horns'', ''Foul'', 0), (''Iso'', ''Foul'', 0)]"
  by (simp add: demo_log_def tag_all_def add_log_def tip_off_def init_state_def points_from_result_def)

lemma spec_example_log_events:
  "map (\<lambda>e. (play e, result e, points e)) spec_example_log =
     [(''Horns'', ''Made 2'', 2), (''Horns'', ''Made 2'', 2), (''Horns'', ''Missed 3'', 0),
      (''Horns'', ''Foul'', 0)]"
  by (simp add: spec_example_log_def tag_all_def add_log_def tip_off_def init_state_def
      points_from_result_def)

lemma count_by_fields:
  "length (filter (\<lambda>e. P (play e, result e, points e)) l) =
     length (filter P (map (\<lambda>e. (play e, result e, points e)) l))"
  by (simp add: filter_map comp_def)

lemma sum_by_fields:
  "sum_list (map points (filter (\<lambda>e. P (play e, result e, points e)) l)) =
     sum_list (map (\<lambda>x. snd (snd x)) (filter P (map (\<lambda>e. (play e, result e, points e)) l)))"
  by (simp add: filter_map comp_def)

lemma np_div_2_3: "np_div 2 3 = 6004799503160661 / 9007199254740992"
  by code_simp

section \<open>The body on the store\<close>

lemma select_rows_mask: "select_rows (map P df) df = filter P df"
  by (induction df) (simp_all add: select_rows_def)

lemma log_rows_eq:
  "a < length h \<Longrightarrow> h ! a = LogFrame l \<Longrightarrow> log_rows (h @ xs) a = l"
  by (simp add: log_rows_def nth_append)

lemma build_metrics_eq:
  assumes "log_df < length h0" and "h0 ! log_df = LogFrame l"
  shows "build_metrics log_df h0 =
           (length h0 + 2,
            h0 @ [IntSeries (group_size (groupby play l)),
                  IntSeries (group_sum points (groupby play l)),
                  MetricsFrame
                    \<lparr>columns = [''Play'', ''Attempts'', ''Points''],
                     rows = map (\<lambda>((k, a), (_, p)).
                              \<lparr>Play = k, Attempts = a, Points = p,
                               PPP = 0, Frequency = 0, Success_Rate = 0\<rparr>)
                            (zip (group_size (groupby play l))
                                 (group_sum points (groupby play l)))\<rparr>])"
proof -
  have a: "log_rows h0 log_df = l"
    using log_rows_eq [OF assms, of "[]"] by simp
  have b: "log_rows (h0 @ xs) log_df = l" for xs
    using assms by (rule log_rows_eq)
  show ?thesis
    by (simp add: build_metrics_def alloc_def Let_def a b)
qed

lemma add_ratios_eq:
  assumes "metrics < length h" and "h ! metrics = MetricsFrame \<lparr>columns = cs, rows = ms\<rparr>"
  shows "add_ratios metrics h =
           h[metrics := MetricsFrame
               \<lparr>columns = cs @ [''PPP'', ''Frequency''],
                rows = map (\<lambda>m. m\<lparr>PPP := np_div (Points m) (Attempts m),
                                  Frequency := np_div (Attempts m)
                                    (if sum_list (map Attempts ms) \<noteq> 0
                                     then sum_list (map Attempts ms) else 1)\<rparr>) ms\<rparr>]"
  using assms
  by (simp add: add_ratios_def set_column_def frame_at_def Let_def comp_def)

lemma add_success_rate_eq:
  assumes "log_df < length h" and "h ! log_df = LogFrame l"
    and "metrics < length h" and "h ! metrics = MetricsFrame \<lparr>columns = cs, rows = ms\<rparr>"
  shows "add_success_rate log_df metrics h =
           (h @ [BoolSeries (map made_mask l), BoolSeries (map att_mask l),
                 IntSeries (group_size (groupby play (filter made_mask l))),
                 IntSeries (group_size (groupby play (filter att_mask l)))])
             [metrics := MetricsFrame
               \<lparr>columns = cs @ [''Success Rate''],
                rows = map (\<lambda>m. m\<lparr>Success_Rate := success_rate l (Play m)\<rparr>) ms\<rparr>]"
proof -
  have a: "log_rows h log_df = l"
    using log_rows_eq [OF assms(1,2), of "[]"] by simp
  have b: "log_rows (h @ xs) log_df = l" for xs
    using assms(1,2) by (rule log_rows_eq)
  show ?thesis
    using assms(3,4)
    by (simp add: add_success_rate_def alloc_def Let_def a b select_rows_mask
        set_column_def frame_at_def nth_append success_rate_def cong: if_cong)
qed

lemma compute_metrics_st_result:
  assumes "log_df < length (heap w)" and "heap w ! log_df = LogFrame l"
  shows "\<exists>res h. compute_metrics_st log_df w = Some (res, w\<lparr>heap := h\<rparr>)
           \<and> take (length (heap w)) h = heap w
           \<and> length (heap w) \<le> res \<and> res < length h
           \<and> h ! res = MetricsFrame (compute_metrics l)"
proof (cases "l = []")
  case True
  have "is_log_frame (heap w) log_df" "log_rows (heap w) log_df = []"
    using assms True by (simp_all add: is_log_frame_def log_rows_def)
  then have "compute_metrics_st log_df w =
          Some (length (heap w), w\<lparr>heap := heap w @ [MetricsFrame (compute_metrics l)]\<rparr>)"
    using True by (simp add: compute_metrics_st_def alloc_def compute_metrics_def)
  then show ?thesis
    by (intro exI [where x = "length (heap w)"]
          exI [where x = "heap w @ [MetricsFrame (compute_metrics l)]"] conjI) simp_all
next
  case False
  let ?h0 = "heap w"
  let ?ks = "sort (remdups (map play l))"
  define m where "m = length ?h0 + 2"
  have lf: "is_log_frame ?h0 log_df" and ne: "log_rows ?h0 log_df \<noteq> []"
    using assms False by (simp_all add: is_log_frame_def log_rows_def)
  have att: "group_size (groupby play l) =
          map (\<lambda>k. (k, int (length (filter (\<lambda>r. play r = k) l)))) ?ks"
    by (simp add: group_size_def groupby_def)
  have pts: "group_sum points (groupby play l) =
          map (\<lambda>k. (k, sum_list (map points (filter (\<lambda>r. play r = k) l)))) ?ks"
    by (simp add: group_sum_def groupby_def)
  define ms3 where "ms3 = map (\<lambda>k. \<lparr>Play = k,
        Attempts = int (length (filter (\<lambda>r. play r = k) l)),
        Points = sum_list (map points (filter (\<lambda>r. play r = k) l)),
        PPP = 0, Frequency = 0, Success_Rate = 0\<rparr>) ?ks"
  define h3 where "h3 = ?h0 @ [IntSeries (group_size (groupby play l)),
                  IntSeries (group_sum points (groupby play l)),
                  MetricsFrame \<lparr>columns = [''Play'', ''Attempts'', ''Points''], rows = ms3\<rparr>]"
  have b: "build_metrics log_df ?h0 = (m, h3)"
    unfolding build_metrics_eq [OF assms] h3_def ms3_def att pts m_def
    by (simp add: zip_map_map zip_same_conv_map comp_def)
  have h3m: "m < length h3" "h3 ! m = MetricsFrame \<lparr>columns = [''Play'', ''Attempts'', ''Points''], rows = ms3\<rparr>"
    by (simp_all add: h3_def m_def nth_append)
  have tot: "sum_list (map Attempts ms3) = int (length l)"
    using sum_list_group_lengths [of play l] by (simp add: ms3_def comp_def)
  define ms5 where "ms5 = map (\<lambda>m. m\<lparr>PPP := np_div (Points m) (Attempts m),
        Frequency := np_div (Attempts m) (int (length l))\<rparr>) ms3"
  define h5 where "h5 = h3[m := MetricsFrame
        \<lparr>columns = [''Play'', ''Attempts'', ''Points'', ''PPP'', ''Frequency''], rows = ms5\<rparr>]"
  have r: "add_ratios m h3 = h5"
    unfolding add_ratios_eq [OF h3m] h5_def ms5_def tot using False by simp
  have h5l: "log_df < length h5" "h5 ! log_df = LogFrame l"
    using assms by (simp_all add: h5_def h3_def m_def nth_append)
  have h5m: "m < length h5" "h5 ! m = MetricsFrame
        \<lparr>columns = [''Play'', ''Attempts'', ''Points'', ''PPP'', ''Frequency''], rows = ms5\<rparr>"
    using h3m(1) by (simp_all add: h5_def)
  define ms10 where "ms10 = map (\<lambda>m. m\<lparr>Success_Rate := success_rate l (Play m)\<rparr>) ms5"
  define h10 where "h10 = (h5 @ [BoolSeries (map made_mask l), BoolSeries (map att_mask l),
                 IntSeries (group_size (groupby play (filter made_mask l))),
                 IntSeries (group_size (groupby play (filter att_mask l)))])
             [m := MetricsFrame \<lparr>columns = metric_columns, rows = ms10\<rparr>]"
  have s: "add_success_rate log_df m h5 = h10"
    unfolding add_success_rate_eq [OF h5l h5m] h10_def ms10_def
    by (simp add: metric_columns_def)
  have h10m: "frame_at h10 m = \<lparr>columns = metric_columns, rows = ms10\<rparr>"
    using h5m(1) by (simp add: h10_def frame_at_def)
  have rows: "ms10 = map (play_row l) ?ks"
    by (simp add: ms10_def ms5_def ms3_def comp_def play_row_def success_rate_eq Let_def)
  have res: "sorted_copy m h10 = (length h10, h10 @ [MetricsFrame (compute_metrics l)])"
    unfolding sorted_copy_def alloc_def h10m
    using False by (simp add: rows compute_metrics_table)
  have pre: "take (length ?h0) (h10 @ [MetricsFrame (compute_metrics l)]) = ?h0"
    by (simp add: h10_def h5_def h3_def m_def)
  have len: "length ?h0 \<le> length h10"
    by (simp add: h10_def h5_def h3_def)
  have "compute_metrics_st log_df w =
          Some (length h10, w\<lparr>heap := h10 @ [MetricsFrame (compute_metrics l)]\<rparr>)"
    using lf ne by (simp add: compute_metrics_st_def b r s res)
  with pre len show ?thesis
    by (intro exI [where x = "length h10"]
          exI [where x = "h10 @ [MetricsFrame (compute_metrics l)]"] conjI) simp_all
qed

section \<open>Properties\<close>

text \<open>
  C1. For a non-empty log and every play name \<open>p\<close> that occurs in it, the table has
  exactly one row for \<open>p\<close>; its Attempts is the number of events tagged \<open>p\<close>, whatever
  their result, its Points is the sum of their points, and its PPP is Points
  divided by Attempts in binary64: the float division of the two, which differs
  from the exact quotient by at most the fraction \<open>2\<^sup>-\<^sup>5\<^sup>3\<close> of it when both are
  below \<open>2\<^sup>5\<^sup>3\<close> in magnitude. Every row of the table has Attempts at least 1, so
  no division by zero occurs.
\<close>

theorem compute_metrics_attempts_points_ppp:
  assumes "log_df \<noteq> []" and "p \<in> play ` set log_df"
  shows "(\<exists>m. filter (\<lambda>m. Play m = p) (rows (compute_metrics log_df)) = [m]
             \<and> Attempts m = int (length (filter (\<lambda>e. play e = p) log_df))
             \<and> Points m = sum_list (map points (filter (\<lambda>e. play e = p) log_df))
             \<and> PPP m = np_div (Points m) (Attempts m)
             \<and> (\<bar>Points m\<bar> < 2 ^ 53 \<and> Attempts m < 2 ^ 53 \<longrightarrow>
                  \<bar>PPP m - rat_of_int (Points m) / rat_of_int (Attempts m)\<bar>
                    \<le> \<bar>rat_of_int (Points m) / rat_of_int (Attempts m)\<bar> / 2 ^ 53))
         \<and> (\<forall>m \<in> set (rows (compute_metrics log_df)). 1 \<le> Attempts m)"
proof
  let ?m = "play_row log_df p"
  have r: "filter (\<lambda>m. Play m = p) (rows (compute_metrics log_df)) = [?m]"
    using assms(2) by (simp add: rows_of_play)
  have in_rows: "?m \<in> set (rows (compute_metrics log_df))"
    using assms(2) by (simp add: set_rows)
  have ppp: "PPP ?m = np_div (Points ?m) (Attempts ?m)"
    by (simp add: play_row_fields)
  have b: "\<bar>Points ?m\<bar> < 2 ^ 53 \<and> Attempts ?m < 2 ^ 53 \<longrightarrow>
            \<bar>PPP ?m - rat_of_int (Points ?m) / rat_of_int (Attempts ?m)\<bar>
              \<le> \<bar>rat_of_int (Points ?m) / rat_of_int (Attempts ?m)\<bar> / 2 ^ 53"
  proof
    assume h: "\<bar>Points ?m\<bar> < 2 ^ 53 \<and> Attempts ?m < 2 ^ 53"
    have "\<bar>Attempts ?m\<bar> < 2 ^ 53"
      using h attempts_rows_bounds(1) [OF in_rows] by simp
    with h show "\<bar>PPP ?m - rat_of_int (Points ?m) / rat_of_int (Attempts ?m)\<bar>
              \<le> \<bar>rat_of_int (Points ?m) / rat_of_int (Attempts ?m)\<bar> / 2 ^ 53"
      unfolding ppp by (intro np_div_err) simp_all
  qed
  show "\<exists>m. filter (\<lambda>m. Play m = p) (rows (compute_metrics log_df)) = [m]
             \<and> Attempts m = int (length (filter (\<lambda>e. play e = p) log_df))
             \<and> Points m = sum_list (map points (filter (\<lambda>e. play e = p) log_df))
             \<and> PPP m = np_div (Points m) (Attempts m)
             \<and> (\<bar>Points m\<bar> < 2 ^ 53 \<and> Attempts m < 2 ^ 53 \<longrightarrow>
                  \<bar>PPP m - rat_of_int (Points m) / rat_of_int (Attempts m)\<bar>
                    \<le> \<bar>rat_of_int (Points m) / rat_of_int (Attempts m)\<bar> / 2 ^ 53)"
    using r ppp b by (intro exI [of _ ?m] conjI) (simp_all only: play_row_fields)
next
  show "\<forall>m \<in> set (rows (compute_metrics log_df)). 1 \<le> Attempts m"
    by (simp add: attempts_rows_bounds)
qed

theorem compute_metrics_attempts_points_ppp_witness:
  "demo_log \<noteq> [] \<and> ''Horns'' \<in> play ` set demo_log
   \<and> (\<exists>m. filter (\<lambda>m. Play m = ''Horns'') (rows (compute_metrics demo_log)) = [m]
          \<and> Attempts m = 3 \<and> Points m = 2
          \<and> PPP m = 6004799503160661 / 9007199254740992
          \<and> \<bar>PPP m - 2 / 3\<bar> \<le> (2 / 3) / 2 ^ 53)
   \<and> list_all (\<lambda>m. 1 \<le> Attempts m) (rows (compute_metrics demo_log))"
proof -
  have h1: "demo_log \<noteq> []"
    using demo_log_events by auto
  have h2: "''Horns'' \<in> play ` set demo_log"
    by (simp add: demo_log_def tag_all_def add_log_def tip_off_def init_state_def)
  have a: "int (length (filter (\<lambda>e. play e = ''Horns'') demo_log)) = 3"
    using count_by_fields [of "\<lambda>x. fst x = ''Horns''" demo_log]
    by (simp add: demo_log_events)
  have p: "sum_list (map points (filter (\<lambda>e. play e = ''Horns'') demo_log)) = 2"
    using sum_by_fields [of "\<lambda>x. fst x = ''Horns''" demo_log]
    by (simp add: demo_log_events)
  note c = compute_metrics_attempts_points_ppp [OF h1 h2]
  from conjunct1 [OF c] obtain m where
    m: "filter (\<lambda>m. Play m = ''Horns'') (rows (compute_metrics demo_log)) = [m]"
      "Attempts m = 3" "Points m = 2" "PPP m = np_div (Points m) (Attempts m)"
      "\<bar>Points m\<bar> < 2 ^ 53 \<and> Attempts m < 2 ^ 53 \<longrightarrow>
         \<bar>PPP m - rat_of_int (Points m) / rat_of_int (Attempts m)\<bar>
           \<le> \<bar>rat_of_int (Points m) / rat_of_int (Attempts m)\<bar> / 2 ^ 53"
    unfolding a p by blast
  have v: "PPP m = 6004799503160661 / 9007199254740992"
    using m(4) unfolding m(2,3) np_div_2_3 .
  have e: "\<bar>PPP m - 2 / 3\<bar> \<le> (2 / 3) / 2 ^ 53"
    using m(5) unfolding m(2,3) by simp
  have "list_all (\<lambda>m. 1 \<le> Attempts m) (rows (compute_metrics demo_log))"
    unfolding list_all_iff by (rule conjunct2 [OF c])
  with h1 h2 m(1,2,3) v e show ?thesis by blast
qed

text \<open>
  C2. For every log and every play \<open>p\<close> occurring in it, the Success Rate of the row
  of \<open>p\<close> is the number of events of \<open>p\<close> with result Made 2 or Made 3, divided by the
  number of its events with result Made 2, Made 3, Missed 2 or Missed 3: Python's
  division of the two counts, within the fraction \<open>2\<^sup>-\<^sup>5\<^sup>3\<close> of the exact quotient.
  When the second count is 0, as for a play tagged with Foul only, the Success
  Rate is 0.
\<close>

theorem compute_metrics_success_rate:
  assumes "p \<in> play ` set log_df"
  shows "\<exists>m. filter (\<lambda>m. Play m = p) (rows (compute_metrics log_df)) = [m]
           \<and> (let made = int (length (filter (\<lambda>e. play e = p \<and> result e \<in> {''Made 2'', ''Made 3''}) log_df));
                   shots = int (length (filter (\<lambda>e. play e = p \<and>
                               result e \<in> {''Made 2'', ''Made 3'', ''Missed 2'', ''Missed 3''}) log_df))
               in (shots = 0 \<longrightarrow> Success_Rate m = 0)
                \<and> (shots \<noteq> 0 \<longrightarrow>
                     Success_Rate m = py_div made shots
                     \<and> \<bar>Success_Rate m - rat_of_int made / rat_of_int shots\<bar>
                          \<le> (rat_of_int made / rat_of_int shots) / 2 ^ 53))"
proof -
  have a: "filter (\<lambda>e. play e = p) (filter made_mask log_df) =
           filter (\<lambda>e. play e = p \<and> result e \<in> {''Made 2'', ''Made 3''}) log_df"
    by (simp add: made_mask_def conj_commute)
  have b: "filter (\<lambda>e. play e = p) (filter att_mask log_df) =
           filter (\<lambda>e. play e = p \<and> result e \<in> {''Made 2'', ''Made 3'', ''Missed 2'', ''Missed 3''}) log_df"
    by (simp add: att_mask_def conj_commute)
  define made where "made = int (length (filter (\<lambda>e. play e = p) (filter made_mask log_df)))"
  define shots where "shots = int (length (filter (\<lambda>e. play e = p) (filter att_mask log_df)))"
  have sr: "Success_Rate (play_row log_df p) = (if shots \<noteq> 0 then py_div made shots else 0)"
    by (simp add: play_row_fields made_def shots_def)
  have bound: "\<bar>py_div made shots - rat_of_int made / rat_of_int shots\<bar>
                 \<le> (rat_of_int made / rat_of_int shots) / 2 ^ 53" if "shots \<noteq> 0"
  proof -
    have s: "0 < shots" using that by (simp add: shots_def)
    have "0 \<le> rat_of_int made / rat_of_int shots"
      using s by (simp add: made_def)
    then have "\<bar>rat_of_int made / rat_of_int shots\<bar> = rat_of_int made / rat_of_int shots"
      by (rule abs_of_nonneg)
    with py_div_err [OF s, of made] show ?thesis by simp
  qed
  have "(shots = 0 \<longrightarrow> Success_Rate (play_row log_df p) = 0)
        \<and> (shots \<noteq> 0 \<longrightarrow>
              Success_Rate (play_row log_df p) = py_div made shots
              \<and> \<bar>Success_Rate (play_row log_df p) - rat_of_int made / rat_of_int shots\<bar>
                  \<le> (rat_of_int made / rat_of_int shots) / 2 ^ 53)"
    using bound by (simp add: sr)
  then show ?thesis
    using assms unfolding Let_def a [symmetric] b [symmetric] made_def shots_def
    by (simp only: rows_of_play if_True) blast
qed

theorem compute_metrics_success_rate_witness:
  "''Horns'' \<in> play ` set spec_example_log
   \<and> (\<exists>m. filter (\<lambda>m. Play m = ''Horns'') (rows (compute_metrics spec_example_log)) = [m]
          \<and> Success_Rate m = 6004799503160661 / 9007199254740992
          \<and> \<bar>Success_Rate m - 2 / 3\<bar> \<le> (2 / 3) / 2 ^ 53)
   \<and> ''Iso'' \<in> play ` set demo_log
   \<and> (\<exists>m. filter (\<lambda>m. Play m = ''Iso'') (rows (compute_metrics demo_log)) = [m]
          \<and> Success_Rate m = 0)"
proof -
  have h1: "''Horns'' \<in> play ` set spec_example_log"
    by (simp add: spec_example_log_def tag_all_def add_log_def tip_off_def init_state_def)
  have h2: "''Iso'' \<in> play ` set demo_log"
    by (simp add: demo_log_def tag_all_def add_log_def tip_off_def init_state_def)
  have made1: "int (length (filter (\<lambda>e. play e = ''Horns'' \<and> result e \<in> {''Made 2'', ''Made 3''})
                 spec_example_log)) = 2"
    using count_by_fields [of "\<lambda>x. fst x = ''Horns'' \<and> fst (snd x) \<in> {''Made 2'', ''Made 3''}"
        spec_example_log]
    by (simp add: spec_example_log_events)
  have shots1: "int (length (filter (\<lambda>e. play e = ''Horns'' \<and>
                   result e \<in> {''Made 2'', ''Made 3'', ''Missed 2'', ''Missed 3''})
                 spec_example_log)) = 3"
    using count_by_fields [of "\<lambda>x. fst x = ''Horns'' \<and>
          fst (snd x) \<in> {''Made 2'', ''Made 3'', ''Missed 2'', ''Missed 3''}" spec_example_log]
    by (simp add: spec_example_log_events)
  have shots2: "int (length (filter (\<lambda>e. play e = ''Iso'' \<and>
                   result e \<in> {''Made 2'', ''Made 3'', ''Missed 2'', ''Missed 3''})
                 demo_log)) = 0"
    using count_by_fields [of "\<lambda>x. fst x = ''Iso'' \<and>
          fst (snd x) \<in> {''Made 2'', ''Made 3'', ''Missed 2'', ''Missed 3''}" demo_log]
    by (simp add: demo_log_events)
  from compute_metrics_success_rate [OF h1] obtain m where
    m: "filter (\<lambda>m. Play m = ''Horns'') (rows (compute_metrics spec_example_log)) = [m]"
       "Success_Rate m = py_div 2 3"
       "\<bar>Success_Rate m - 2 / 3\<bar> \<le> (2 / 3) / 2 ^ 53"
    unfolding Let_def made1 shots1 by auto
  have v: "py_div 2 3 = 6004799503160661 / 9007199254740992" by code_simp
  from compute_metrics_success_rate [OF h2] obtain m' where
    m': "filter (\<lambda>m. Play m = ''Iso'') (rows (compute_metrics demo_log)) = [m']"
        "Success_Rate m' = 0"
    unfolding Let_def shots2 by auto
  from h1 h2 m m' show ?thesis unfolding v by blast
qed

text \<open>
  C3. The rows are in descending order of PPP, and rows with equal PPP are in
  descending order of Attempts.
\<close>

theorem compute_metrics_sorted:
  "sorted_wrt (\<lambda>a b. PPP b < PPP a \<or> (PPP b = PPP a \<and> Attempts b \<le> Attempts a))
     (rows (compute_metrics log_df))"
proof (cases "log_df = []")
  case True
  then show ?thesis by (simp add: rows_empty)
next
  case False
  let ?ms = "map (play_row log_df) (sort (remdups (map play log_df)))"
  have "sorted (map (\<lambda>m. (- PPP m, - Attempts m)) (sort_values ?ms))"
    unfolding sort_values_def by (rule sorted_sort_key)
  then have "sorted_wrt (\<lambda>a b. (- PPP a, - Attempts a) \<le> (- PPP b, - Attempts b)) (sort_values ?ms)"
    by (simp add: sorted_map)
  then have "sorted_wrt (\<lambda>a b. PPP b < PPP a \<or> (PPP b = PPP a \<and> Attempts b \<le> Attempts a))
               (sort_values ?ms)"
    by (rule sorted_wrt_mono_rel [rotated]) auto
  then show ?thesis by (simp add: compute_metrics_rows [OF False])
qed


text \<open>
  C4, as the claim states it: the Frequency values of a non-empty log sum to
  exactly 1. They do not. With six plays tagged once each, every Frequency is the
  binary64 nearest to 1/6, which lies below 1/6: the six values add up to
  \<open>1 - 2\<^sup>-\<^sup>5\<^sup>4\<close>, and to \<open>1 - 2\<^sup>-\<^sup>5\<^sup>3\<close> (Python prints 0.9999999999999999) when they
  are added in binary64 from the first row on.
\<close>

theorem frequency_sum_counterexample:
  "six_plays_log \<noteq> []
   \<and> map Frequency (rows (compute_metrics six_plays_log))
       = replicate 6 (6004799503160661 / 36028797018963968)
   \<and> sum_list (map Frequency (rows (compute_metrics six_plays_log)))
       = 18014398509481983 / 18014398509481984
   \<and> sum_list (map Frequency (rows (compute_metrics six_plays_log))) \<noteq> 1
   \<and> fsum (map Frequency (rows (compute_metrics six_plays_log)))
       = 9007199254740991 / 9007199254740992
   \<and> fsum (map Frequency (rows (compute_metrics six_plays_log))) \<noteq> 1"
proof -
  have ne: "six_plays_log \<noteq> []"
    using six_plays_log_plays by auto
  have f: "map Frequency (rows (compute_metrics six_plays_log))
             = replicate 6 (6004799503160661 / 36028797018963968)"
    by (simp only: six_plays_frequencies np_div_1_6)
  have s: "sum_list (replicate 6 (6004799503160661 / 36028797018963968 :: rat))
             = 18014398509481983 / 18014398509481984"
    by code_simp
  have t: "fsum (replicate 6 (6004799503160661 / 36028797018963968))
             = 9007199254740991 / 9007199254740992"
    by code_simp
  show ?thesis
    unfolding f s t using ne by simp
qed

text \<open>
  C4, amended. For a non-empty log the Attempts of the rows add up to the number of
  events, which is at least 1, so the replacement of a zero total by 1 never
  applies. Each row's Frequency is the binary64 quotient of its Attempts by that
  total. The exact quotients Attempts / total sum to 1, and for a log of fewer
  than \<open>2\<^sup>5\<^sup>3\<close> events the exact sum of the Frequency values returned (their sum
  as rational numbers, not a float sum, which depends on the order of addition)
  is within \<open>2\<^sup>-\<^sup>5\<^sup>3\<close> of 1.
\<close>

theorem compute_metrics_frequency:
  assumes "log_df \<noteq> []"
  shows "sum_list (map Attempts (rows (compute_metrics log_df))) = int (length log_df)
         \<and> (\<forall>m \<in> set (rows (compute_metrics log_df)).
               Frequency m =
                 np_div (Attempts m)
                   (if sum_list (map Attempts (rows (compute_metrics log_df))) \<noteq> 0
                    then sum_list (map Attempts (rows (compute_metrics log_df))) else 1))
         \<and> (\<Sum>m\<leftarrow>rows (compute_metrics log_df).
               rat_of_int (Attempts m)
                 / rat_of_int (sum_list (map Attempts (rows (compute_metrics log_df))))) = 1
         \<and> (length log_df < 2 ^ 53 \<longrightarrow>
               \<bar>sum_list (map Frequency (rows (compute_metrics log_df))) - 1\<bar> \<le> 1 / 2 ^ 53)"
proof -
  let ?ms = "rows (compute_metrics log_df)"
  have T: "sum_list (map Attempts ?ms) = int (length log_df)"
    by (rule total_attempts_rows)
  have n: "int (length log_df) \<noteq> 0" using assms by simp
  have F: "\<forall>m \<in> set ?ms. Frequency m = np_div (Attempts m) (int (length log_df))"
    by (simp add: frequency_rows)
  have E: "(\<Sum>m\<leftarrow>?ms. rat_of_int (Attempts m) / rat_of_int (int (length log_df))) = 1"
    by (rule exact_shares_sum [OF assms])
  have B: "length log_df < 2 ^ 53 \<longrightarrow> \<bar>sum_list (map Frequency ?ms) - 1\<bar> \<le> 1 / 2 ^ 53"
    using frequency_sum_bound [OF assms] by blast
  show ?thesis
    unfolding T if_P [OF n]
    using F E B by (intro conjI) (rule refl, assumption+)
qed

theorem compute_metrics_frequency_witness:
  "demo_log \<noteq> [] \<and> length demo_log < 2 ^ 53
   \<and> sum_list (map Attempts (rows (compute_metrics demo_log))) = int (length demo_log)
   \<and> list_all (\<lambda>m. Frequency m =
                 np_div (Attempts m)
                   (if sum_list (map Attempts (rows (compute_metrics demo_log))) \<noteq> 0
                    then sum_list (map Attempts (rows (compute_metrics demo_log))) else 1))
        (rows (compute_metrics demo_log))
   \<and> (\<Sum>m\<leftarrow>rows (compute_metrics demo_log).
               rat_of_int (Attempts m)
                 / rat_of_int (sum_list (map Attempts (rows (compute_metrics demo_log))))) = 1
   \<and> \<bar>sum_list (map Frequency (rows (compute_metrics demo_log))) - 1\<bar> \<le> 1 / 2 ^ 53"
proof -
  have h1: "demo_log \<noteq> []"
    by (simp add: demo_log_def tag_all_def add_log_def tip_off_def init_state_def)
  have h2: "length demo_log < 2 ^ 53"
    by (simp add: demo_log_def tag_all_def add_log_def tip_off_def init_state_def)
  note c = compute_metrics_frequency [OF h1]
  from c h1 h2 show ?thesis
    unfolding list_all_iff by blast
qed

text \<open>
  C7. On an empty log \<open>compute_metrics\<close> returns a table with no rows and the six
  columns Play, Attempts, Points, PPP, Frequency, Success Rate, in this order.
\<close>

theorem compute_metrics_empty:
  "compute_metrics [] =
     \<lparr>columns = [''Play'', ''Attempts'', ''Points'', ''PPP'', ''Frequency'', ''Success Rate''],
      rows = []\<rparr>"
  by (simp add: compute_metrics_def metric_columns_def)

text \<open>
  C5. \<open>add_log\<close> appends exactly one event to the log, for every play, result and
  game context. The event carries the play, the result, the clock reading and the
  context of the session, and its points are those of the result: Made 2 gives 2,
  Made 3 gives 3, Missed 2, Missed 3 and Foul give 0, and every other result string
  gives 0. No input is rejected.
\<close>

theorem add_log_appends_one_event:
  "(\<exists>e. ss_log (add_log now p r s) = ss_log s @ [e]
        \<and> play e = p \<and> result e = r \<and> timestamp e = now
        \<and> opponent e = ss_opponent s \<and> game_date e = str_date (ss_game_date s)
        \<and> quarter e = ss_quarter s
        \<and> points e = points_from_result r)
   \<and> points_from_result ''Made 2'' = 2 \<and> points_from_result ''Made 3'' = 3
   \<and> points_from_result ''Missed 2'' = 0 \<and> points_from_result ''Missed 3'' = 0
   \<and> points_from_result ''Foul'' = 0
   \<and> (r \<notin> {''Made 2'', ''Made 3'', ''Missed 2'', ''Missed 3'', ''Foul''}
        \<longrightarrow> points_from_result r = 0)"
  by (simp add: add_log_def points_from_result_def)

theorem add_log_appends_one_event_witness:
  "''Dunk'' \<notin> {''Made 2'', ''Made 3'', ''Missed 2'', ''Missed 3'', ''Foul''}
   \<and> points_from_result ''Dunk'' = 0
   \<and> (\<exists>e. ss_log (add_log ''2024-03-09 18:05:00'' ''Horns'' ''Dunk'' tip_off) = ss_log tip_off @ [e]
        \<and> play e = ''Horns'' \<and> points e = 0)"
proof -
  have h: "''Dunk'' \<notin> {''Made 2'', ''Made 3'', ''Missed 2'', ''Missed 3'', ''Foul''}" by simp
  from add_log_appends_one_event [of "''2024-03-09 18:05:00''" "''Horns''" "''Dunk''" tip_off] h
  show ?thesis by auto
qed

text \<open>
  C6, as the claim states it: a name that is empty after trimming is rejected with
  a warning shown to the user. It is not: on a blank name \<open>add_play\<close> returns
  without showing anything.
\<close>

theorem add_play_blank_counterexample:
  "strip (ss_new_play (tip_off\<lparr>ss_new_play := ''   ''\<rparr>)) = []
   \<and> add_play (tip_off\<lparr>ss_new_play := ''   ''\<rparr>) = (tip_off\<lparr>ss_new_play := ''   ''\<rparr>, [])"
  by (simp add: add_play_def strip_def isspace_def)

text \<open>
  C6, amended. \<open>add_play\<close> trims the name: it removes the longest run of whitespace at
  each end, whitespace being the codes 9 to 13, 28 to 32, 133 and 160, so that
  what is left neither starts nor ends with whitespace. If the trimmed name is
  empty, nothing changes and nothing is shown. If its lower-cased form equals the
  lower-cased form of a play of the registry (lower-casing adds 32 to the codes
  65 to 90 and 192 to 222 except 215), nothing changes and the warning
  "Play already exists." is shown. Otherwise the trimmed name is appended at the
  end of the registry and the input field is cleared.
\<close>

theorem add_play_outcomes:
  "(\<exists>pre suf. ss_new_play s = pre @ strip (ss_new_play s) @ suf
        \<and> list_all isspace pre \<and> list_all isspace suf)
   \<and> (strip (ss_new_play s) \<noteq> [] \<longrightarrow>
        \<not> isspace (hd (strip (ss_new_play s))) \<and> \<not> isspace (last (strip (ss_new_play s))))
   \<and> (\<forall>c. isspace c \<longleftrightarrow>
        (let n = (of_char c :: nat)
         in 9 \<le> n \<and> n \<le> 13 \<or> 28 \<le> n \<and> n \<le> 32 \<or> n = 133 \<or> n = 160))
   \<and> (\<forall>q. map of_char (lower q) =
        map (\<lambda>c. let n = (of_char c :: nat)
                  in if 65 \<le> n \<and> n \<le> 90 \<or> 192 \<le> n \<and> n \<le> 222 \<and> n \<noteq> 215
                     then n + 32 else n) q)
   \<and> (strip (ss_new_play s) = [] \<longrightarrow> add_play s = (s, []))
   \<and> (strip (ss_new_play s) \<noteq> [] \<and> lower (strip (ss_new_play s)) \<in> lower ` set (ss_plays s)
        \<longrightarrow> add_play s = (s, [SidebarWarning ''Play already exists.'']))
   \<and> (strip (ss_new_play s) \<noteq> [] \<and> lower (strip (ss_new_play s)) \<notin> lower ` set (ss_plays s)
        \<longrightarrow> add_play s = (s\<lparr>ss_plays := ss_plays s @ [strip (ss_new_play s)], ss_new_play := []\<rparr>, []))"
proof (intro conjI allI)
  show "\<exists>pre suf. ss_new_play s = pre @ strip (ss_new_play s) @ suf
        \<and> list_all isspace pre \<and> list_all isspace suf"
    by (rule strip_decomposition)
  show "strip (ss_new_play s) \<noteq> [] \<longrightarrow>
        \<not> isspace (hd (strip (ss_new_play s))) \<and> \<not> isspace (last (strip (ss_new_play s)))"
    by (simp add: strip_ends)
  show "isspace c \<longleftrightarrow>
        (let n = (of_char c :: nat)
         in 9 \<le> n \<and> n \<le> 13 \<or> 28 \<le> n \<and> n \<le> 32 \<or> n = 133 \<or> n = 160)" for c
    by (rule isspace_codes)
  show "map of_char (lower q) =
        map (\<lambda>c. let n = (of_char c :: nat)
                  in if 65 \<le> n \<and> n \<le> 90 \<or> 192 \<le> n \<and> n \<le> 222 \<and> n \<noteq> 215
                     then n + 32 else n) q" for q
    by (rule lower_codes)
  show "strip (ss_new_play s) = [] \<longrightarrow> add_play s = (s, [])"
    by (simp add: add_play_def)
  show "strip (ss_new_play s) \<noteq> [] \<and> lower (strip (ss_new_play s)) \<in> lower ` set (ss_plays s)
        \<longrightarrow> add_play s = (s, [SidebarWarning ''Play already exists.''])"
    by (simp add: add_play_def Let_def)
  show "strip (ss_new_play s) \<noteq> [] \<and> lower (strip (ss_new_play s)) \<notin> lower ` set (ss_plays s)
        \<longrightarrow> add_play s = (s\<lparr>ss_plays := ss_plays s @ [strip (ss_new_play s)], ss_new_play := []\<rparr>, [])"
    by (simp add: add_play_def Let_def)
qed

theorem add_play_outcomes_witness:
  "strip [CHR 0xA0, CHR 0x09, CHR 0x85, CHR '' '', CHR 0x1C] = []
   \<and> add_play (tip_off\<lparr>ss_new_play := [CHR 0xA0, CHR 0x09, CHR 0x85, CHR '' '', CHR 0x1C]\<rparr>)
       = (tip_off\<lparr>ss_new_play := [CHR 0xA0, CHR 0x09, CHR 0x85, CHR '' '', CHR 0x1C]\<rparr>, [])
   \<and> strip (CHR 0xA0 # CHR 0xE9 # ''cole du Nord'' @ [CHR 0x0A]) = CHR 0xE9 # ''cole du Nord''
   \<and> lower (CHR 0xC9 # ''COLE DU NORD'') = CHR 0xE9 # ''cole du nord''
   \<and> lower (CHR 0xE9 # ''cole du Nord'') = CHR 0xE9 # ''cole du nord''
   \<and> add_play (tip_off\<lparr>ss_plays := [''Pick and Roll'', CHR 0xC9 # ''COLE DU NORD''],
                         ss_new_play := CHR 0xA0 # CHR 0xE9 # ''cole du Nord'' @ [CHR 0x0A]\<rparr>)
       = (tip_off\<lparr>ss_plays := [''Pick and Roll'', CHR 0xC9 # ''COLE DU NORD''],
                   ss_new_play := CHR 0xA0 # CHR 0xE9 # ''cole du Nord'' @ [CHR 0x0A]\<rparr>,
          [SidebarWarning ''Play already exists.''])
   \<and> strip (CHR 0x09 # ''Horns Flex 45 '') = ''Horns Flex 45''
   \<and> lower ''Horns Flex 45'' = ''horns flex 45''
   \<and> add_play (tip_off\<lparr>ss_plays := [''Pick and Roll'', CHR 0xC9 # ''COLE DU NORD''],
                         ss_new_play := CHR 0x09 # ''Horns Flex 45 ''\<rparr>)
       = (tip_off\<lparr>ss_plays := [''Pick and Roll'', CHR 0xC9 # ''COLE DU NORD'', ''Horns Flex 45''],
                   ss_new_play := []\<rparr>, [])"
proof -
  have a: "strip [CHR 0xA0, CHR 0x09, CHR 0x85, CHR '' '', CHR 0x1C] = []" by code_simp
  have b: "strip (CHR 0xA0 # CHR 0xE9 # ''cole du Nord'' @ [CHR 0x0A]) = CHR 0xE9 # ''cole du Nord''"
    by code_simp
  have c: "lower (CHR 0xC9 # ''COLE DU NORD'') = CHR 0xE9 # ''cole du nord''" by code_simp
  have d: "lower (CHR 0xE9 # ''cole du Nord'') = CHR 0xE9 # ''cole du nord''" by code_simp
  have e: "lower ''Pick and Roll'' = ''pick and roll''" by code_simp
  have f: "strip (CHR 0x09 # ''Horns Flex 45 '') = ''Horns Flex 45''" by code_simp
  have g: "lower ''Horns Flex 45'' = ''horns flex 45''" by code_simp
  have 1: "add_play (tip_off\<lparr>ss_new_play := [CHR 0xA0, CHR 0x09, CHR 0x85, CHR '' '', CHR 0x1C]\<rparr>)
       = (tip_off\<lparr>ss_new_play := [CHR 0xA0, CHR 0x09, CHR 0x85, CHR '' '', CHR 0x1C]\<rparr>, [])"
    using add_play_outcomes
      [of "tip_off\<lparr>ss_new_play := [CHR 0xA0, CHR 0x09, CHR 0x85, CHR '' '', CHR 0x1C]\<rparr>"] a
    by simp
  have 2: "add_play (tip_off\<lparr>ss_plays := [''Pick and Roll'', CHR 0xC9 # ''COLE DU NORD''],
                         ss_new_play := CHR 0xA0 # CHR 0xE9 # ''cole du Nord'' @ [CHR 0x0A]\<rparr>)
       = (tip_off\<lparr>ss_plays := [''Pick and Roll'', CHR 0xC9 # ''COLE DU NORD''],
                   ss_new_play := CHR 0xA0 # CHR 0xE9 # ''cole du Nord'' @ [CHR 0x0A]\<rparr>,
          [SidebarWarning ''Play already exists.''])"
    using add_play_outcomes
      [of "tip_off\<lparr>ss_plays := [''Pick and Roll'', CHR 0xC9 # ''COLE DU NORD''],
                    ss_new_play := CHR 0xA0 # CHR 0xE9 # ''cole du Nord'' @ [CHR 0x0A]\<rparr>"] b c d e
    by simp
  have 3: "add_play (tip_off\<lparr>ss_plays := [''Pick and Roll'', CHR 0xC9 # ''COLE DU NORD''],
                         ss_new_play := CHR 0x09 # ''Horns Flex 45 ''\<rparr>)
       = (tip_off\<lparr>ss_plays := [''Pick and Roll'', CHR 0xC9 # ''COLE DU NORD'', ''Horns Flex 45''],
                   ss_new_play := []\<rparr>, [])"
    using add_play_outcomes
      [of "tip_off\<lparr>ss_plays := [''Pick and Roll'', CHR 0xC9 # ''COLE DU NORD''],
                    ss_new_play := CHR 0x09 # ''Horns Flex 45 ''\<rparr>"] c e f g
    by simp
  from a b c d f g 1 2 3 show ?thesis by (intro conjI)
qed

text \<open>
  C8. The "Reset Game" handler leaves the log empty and the registry of plays as it
  was, names and order; \<open>compute_metrics\<close> on the log then returns no rows.
\<close>

theorem reset_game_keeps_plays:
  "ss_log (fst (reset_game s)) = []
   \<and> ss_plays (fst (reset_game s)) = ss_plays s
   \<and> rows (compute_metrics (ss_log (fst (reset_game s)))) = []"
  by (simp add: reset_game_def rows_empty)

text \<open>
  C9. \<open>add_log\<close> does not look at the registry and accepts every play string, the
  empty one and names never added included: the registry is unchanged, the event
  appended carries exactly that string, and \<open>compute_metrics\<close> on the new log has a
  row for it.
\<close>

theorem add_log_any_play:
  "ss_plays (add_log now p r s) = ss_plays s
   \<and> (\<exists>e. ss_log (add_log now p r s) = ss_log s @ [e] \<and> play e = p)
   \<and> (\<exists>m \<in> set (rows (compute_metrics (ss_log (add_log now p r s)))). Play m = p)"
proof -
  have "p \<in> play ` set (ss_log (add_log now p r s))"
    by (simp add: add_log_def)
  then have "play_row (ss_log (add_log now p r s)) p \<in> set (rows (compute_metrics (ss_log (add_log now p r s))))"
    unfolding set_rows by (rule imageI)
  then have "\<exists>m \<in> set (rows (compute_metrics (ss_log (add_log now p r s)))). Play m = p"
    by (rule bexI [rotated]) (simp add: play_row_fields)
  then show ?thesis by (simp add: add_log_def)
qed

text \<open>
  C10. \<open>compute_metrics\<close> is deterministic and read-only. Run on the store of
  objects, from any two worlds, at any two addresses that hold the same event
  log, it returns tables with the same content, the one \<open>compute_metrics\<close> gives
  for that log: the content does not depend on the clock of the world, on the
  address of the log or on the other objects. Every object that existed before
  the call is unchanged after it, the log in particular; the clock is unchanged;
  the table returned is a new object.
\<close>

theorem compute_metrics_deterministic_read_only:
  assumes "a1 < length (heap w1)" and "heap w1 ! a1 = LogFrame l"
    and "a2 < length (heap w2)" and "heap w2 ! a2 = LogFrame l"
  shows "\<exists>r1 h1 r2 h2.
           compute_metrics_st a1 w1 = Some (r1, w1\<lparr>heap := h1\<rparr>)
         \<and> compute_metrics_st a2 w2 = Some (r2, w2\<lparr>heap := h2\<rparr>)
         \<and> h1 ! r1 = h2 ! r2
         \<and> h1 ! r1 = MetricsFrame (compute_metrics l)
         \<and> take (length (heap w1)) h1 = heap w1 \<and> h1 ! a1 = LogFrame l
         \<and> take (length (heap w2)) h2 = heap w2 \<and> h2 ! a2 = LogFrame l
         \<and> length (heap w1) \<le> r1 \<and> length (heap w2) \<le> r2"
proof -
  from compute_metrics_st_result [OF assms(1,2)] obtain r1 h1 where
    1: "compute_metrics_st a1 w1 = Some (r1, w1\<lparr>heap := h1\<rparr>)"
       "take (length (heap w1)) h1 = heap w1" "length (heap w1) \<le> r1"
       "h1 ! r1 = MetricsFrame (compute_metrics l)"
    by blast
  from compute_metrics_st_result [OF assms(3,4)] obtain r2 h2 where
    2: "compute_metrics_st a2 w2 = Some (r2, w2\<lparr>heap := h2\<rparr>)"
       "take (length (heap w2)) h2 = heap w2" "length (heap w2) \<le> r2"
       "h2 ! r2 = MetricsFrame (compute_metrics l)"
    by blast
  have k: "h ! a = LogFrame l" if "take (length h0) h = h0" "a < length h0" "h0 ! a = LogFrame l"
    for h h0 :: "pd_obj list" and a
    using that by (metis nth_take)
  have "h1 ! a1 = LogFrame l" using k [OF 1(2) assms(1,2)] .
  moreover have "h2 ! a2 = LogFrame l" using k [OF 2(2) assms(3,4)] .
  ultimately show ?thesis using 1 2 by (intro exI conjI) simp_all
qed

theorem compute_metrics_deterministic_read_only_witness:
  "(0::nat) < length (heap \<lparr>heap = [LogFrame demo_log], clock = ''2024-03-09 18:06:00''\<rparr>)
   \<and> heap \<lparr>heap = [LogFrame demo_log], clock = ''2024-03-09 18:06:00''\<rparr> ! 0 = LogFrame demo_log
   \<and> (1::nat) < length (heap \<lparr>heap = [BoolSeries [True], LogFrame demo_log],
                                 clock = ''2024-03-10 09:30:00''\<rparr>)
   \<and> heap \<lparr>heap = [BoolSeries [True], LogFrame demo_log], clock = ''2024-03-10 09:30:00''\<rparr> ! 1
       = LogFrame demo_log
   \<and> (\<exists>r1 h1 r2 h2.
           compute_metrics_st 0 \<lparr>heap = [LogFrame demo_log], clock = ''2024-03-09 18:06:00''\<rparr>
             = Some (r1, \<lparr>heap = h1, clock = ''2024-03-09 18:06:00''\<rparr>)
         \<and> compute_metrics_st 1 \<lparr>heap = [BoolSeries [True], LogFrame demo_log],
                                   clock = ''2024-03-10 09:30:00''\<rparr>
             = Some (r2, \<lparr>heap = h2, clock = ''2024-03-10 09:30:00''\<rparr>)
         \<and> h1 ! r1 = h2 ! r2
         \<and> h1 ! r1 = MetricsFrame (compute_metrics demo_log)
         \<and> take 1 h1 = [LogFrame demo_log]
         \<and> take 2 h2 = [BoolSeries [True], LogFrame demo_log]
         \<and> 1 \<le> r1 \<and> 2 \<le> r2)"
proof -
  let ?w1 = "\<lparr>heap = [LogFrame demo_log], clock = ''2024-03-09 18:06:00''\<rparr>"
  let ?w2 = "\<lparr>heap = [BoolSeries [True], LogFrame demo_log], clock = ''2024-03-10 09:30:00''\<rparr>"
  have a: "(0::nat) < length (heap ?w1)" "heap ?w1 ! 0 = LogFrame demo_log"
    by simp_all
  have b: "(1::nat) < length (heap ?w2)" "heap ?w2 ! 1 = LogFrame demo_log"
    by simp_all
  from compute_metrics_deterministic_read_only [OF a b] obtain r1 h1 r2 h2 where
    c: "compute_metrics_st 0 ?w1 = Some (r1, ?w1\<lparr>heap := h1\<rparr>)"
       "compute_metrics_st 1 ?w2 = Some (r2, ?w2\<lparr>heap := h2\<rparr>)"
       "h1 ! r1 = h2 ! r2" "h1 ! r1 = MetricsFrame (compute_metrics demo_log)"
       "take (length (heap ?w1)) h1 = heap ?w1" "take (length (heap ?w2)) h2 = heap ?w2"
       "length (heap ?w1) \<le> r1" "length (heap ?w2) \<le> r2"
    by blast
  have "compute_metrics_st 0 ?w1 = Some (r1, \<lparr>heap = h1, clock = ''2024-03-09 18:06:00''\<rparr>)
         \<and> compute_metrics_st 1 ?w2 = Some (r2, \<lparr>heap = h2, clock = ''2024-03-10 09:30:00''\<rparr>)
         \<and> h1 ! r1 = h2 ! r2
         \<and> h1 ! r1 = MetricsFrame (compute_metrics demo_log)
         \<and> take 1 h1 = [LogFrame demo_log]
         \<and> take 2 h2 = [BoolSeries [True], LogFrame demo_log]
         \<and> 1 \<le> r1 \<and> 2 \<le> r2"
    using c by (simp add: numeral_2_eq_2)
  then have "\<exists>r1 h1 r2 h2.
           compute_metrics_st 0 ?w1 = Some (r1, \<lparr>heap = h1, clock = ''2024-03-09 18:06:00''\<rparr>)
         \<and> compute_metrics_st 1 ?w2 = Some (r2, \<lparr>heap = h2, clock = ''2024-03-10 09:30:00''\<rparr>)
         \<and> h1 ! r1 = h2 ! r2
         \<and> h1 ! r1 = MetricsFrame (compute_metrics demo_log)
         \<and> take 1 h1 = [LogFrame demo_log]
         \<and> take 2 h2 = [BoolSeries [True], LogFrame demo_log]
         \<and> 1 \<le> r1 \<and> 2 \<le> r2"
    by blast
  with a b show ?thesis by (intro conjI)
qed

end
